theory Spec2Isabelle
  imports Main
begin

section \<open>Data model of src/main.py\<close>

text \<open>
  The dataclass \<open>Config\<close> (lines 20-28), field for field.
\<close>

record config =
  api_id :: int
  api_hash :: string
  phone_number :: string
  session_name :: string
  message_delay :: int
  max_retries :: int
  batch_size :: int

text \<open>
  The exceptions the code distinguishes.  The first five are the telethon errors imported
  at lines 10-16, \<open>OtherError\<close> is any other subclass of \<open>Exception\<close> (its argument is
  \<open>str(e)\<close>), and \<open>KeyboardInterrupt\<close> is the one exception named in the code that is
  not a subclass of \<open>Exception\<close>.
\<close>

datatype exn =
    FloodWaitError int
  | UserPrivacyRestrictedError
  | UserNotMutualContactError
  | PeerIdInvalidError
  | ChatWriteForbiddenError
  | OtherError string
  | KeyboardInterrupt

fun is_Exception :: "exn \<Rightarrow> bool" where
  "is_Exception KeyboardInterrupt = False"
| "is_Exception _ = True"

text \<open>What \<open>client.get_entity\<close> resolves an identifier to: a \<open>User\<close> or something else.\<close>

datatype entity = UserEntity | OtherEntity

text \<open>
  The dictionary built at lines 134-139.  Its \<open>'status'\<close> entry only ever holds one of the
  three strings \<open>'sent'\<close>, \<open>'failed'\<close>, \<open>'skipped'\<close>.
\<close>

datatype status = Sent | Failed | Skipped

record result =
  user :: string
  status :: status
  error :: "string option"
  timestamp :: string

text \<open>
  A progress file on disk, as the program itself leaves it: absent, present with
  contents that cannot be read back (\<open>open\<close> or \<open>json.load\<close> raises), or present holding
  the list that \<open>json.dump\<close> wrote.  The text format itself belongs to the \<open>json\<close> library
  and is not modelled.  A file that parses to something other than such a list (edited
  by hand, or written by another program) is not a value of this type; what
  \<open>load_progress\<close> does with it is \<open>load_progress_documents\<close> below.
\<close>

datatype 'a progress_file = Absent | Unparseable | Stored 'a

text \<open>
  The outcome of \<open>open(path, 'w')\<close> followed by \<open>json.dump\<close>: both succeed, \<open>open\<close> raises
  (the file is left as it was), or \<open>json.dump\<close> raises after \<open>open\<close> has truncated the file.
\<close>

datatype write_result = Written | OpenFailed | DumpFailed

text \<open>The messages handed to the logger, one constructor per logging call.\<close>

datatype log_msg =
    ProgressSaved
  | ErrorSavingProgress
  | LoadedProgress nat nat
  | ErrorLoadingProgress
  | CouldNotValidate string exn
  | MessageSent string
  | RateLimitHit int
  | PrivacyRestricted string
  | InvalidPeer string
  | ErrorSending string string
  | Resuming nat
  | NoUsers
  | Starting nat
  | RateLimit int
  | Processing nat nat string
  | Waiting int
  | Interrupted
  | UnexpectedError string exn

text \<open>
  What the program does to the outside world, in order.  \<open>SaveProgress\<close> records a call of
  \<open>save_progress\<close>: the two lists passed and the counters \<open>stats['sent']\<close>,
  \<open>stats['failed']\<close>, \<open>stats['skipped']\<close> of the sender at the moment of the call.
\<close>

datatype event =
    Log log_msg
  | GetEntity string
  | SendMessage string string
  | Sleep int
  | SaveProgress "string list" "result list" int int int
  | PrintStats nat nat
  | PrintFinalStats

text \<open>
  The environment: what each external call answers, indexed by the number of external
  calls made before it (\<open>tick\<close>).  \<open>get_entity_at\<close> and \<open>send_message_at\<close> are the telethon
  client, \<open>sleep_at\<close> is \<open>asyncio.sleep\<close>, \<open>print_at\<close> is the \<open>print\<close> calls of a report,
  \<open>write_at\<close> is writing one progress file, \<open>now_at\<close> is \<open>datetime.now().isoformat()\<close>.
  Logging calls do not raise (the \<open>logging\<close> module handles errors of its handlers itself).
\<close>

record env =
  get_entity_at :: "nat \<Rightarrow> string \<Rightarrow> exn + entity"
  send_message_at :: "nat \<Rightarrow> string \<Rightarrow> exn option"
  sleep_at :: "nat \<Rightarrow> exn option"
  print_at :: "nat \<Rightarrow> exn option"
  write_at :: "nat \<Rightarrow> write_result"
  now_at :: "nat \<Rightarrow> string"

text \<open>
  The state: \<open>self.stats\<close> (lines 39-44), the two files under \<open>data/\<close>, the number of
  external calls made so far and the history of events.
\<close>

record state =
  stats_sent :: int
  stats_failed :: int
  stats_skipped :: int
  stats_total :: int
  sent_file :: "string list progress_file"
  failed_file :: "result list progress_file"
  tick :: nat
  trace :: "event list"

definition init_state :: state where
  "init_state = \<lparr>stats_sent = 0, stats_failed = 0, stats_skipped = 0, stats_total = 0,
     sent_file = Absent, failed_file = Absent, tick = 0, trace = []\<rparr>"

definition emit :: "event \<Rightarrow> state \<Rightarrow> state" where
  "emit e st = st\<lparr>trace := trace st @ [e]\<rparr>"

definition log :: "log_msg \<Rightarrow> state \<Rightarrow> state" where
  "log m st = emit (Log m) st"

definition external :: "event \<Rightarrow> state \<Rightarrow> state" where
  "external e st = st\<lparr>tick := Suc (tick st), trace := trace st @ [e]\<rparr>"

section \<open>Progress store\<close>

text \<open>\<open>save_progress\<close>, lines 85-98: two writes inside one \<open>try\<close>; any failure is logged.\<close>

definition save_progress :: "env \<Rightarrow> string list \<Rightarrow> result list \<Rightarrow> state \<Rightarrow> state" where
  "save_progress en sent_users failed_users st =
     (let st0 = emit (SaveProgress sent_users failed_users
                        (stats_sent st) (stats_failed st) (stats_skipped st)) st
      in case write_at en (tick st0) of
           OpenFailed \<Rightarrow> log ErrorSavingProgress (st0\<lparr>tick := Suc (tick st0)\<rparr>)
         | DumpFailed \<Rightarrow>
             log ErrorSavingProgress (st0\<lparr>tick := Suc (tick st0), sent_file := Unparseable\<rparr>)
         | Written \<Rightarrow>
             (let st1 = st0\<lparr>tick := Suc (tick st0), sent_file := Stored sent_users\<rparr>
              in case write_at en (tick st1) of
                   OpenFailed \<Rightarrow> log ErrorSavingProgress (st1\<lparr>tick := Suc (tick st1)\<rparr>)
                 | DumpFailed \<Rightarrow>
                     log ErrorSavingProgress
                       (st1\<lparr>tick := Suc (tick st1), failed_file := Unparseable\<rparr>)
                 | Written \<Rightarrow>
                     log ProgressSaved
                       (st1\<lparr>tick := Suc (tick st1), failed_file := Stored failed_users\<rparr>)))"

text \<open>
  \<open>load_progress\<close>, lines 100-118, on the files of type \<open>progress_file\<close>: both lists
  start empty; the first failure leaves the \<open>try\<close> block, is logged, and whatever has
  been assigned by then is returned.  On these files \<open>len\<close> at line 114 cannot raise.
\<close>

definition load_progress :: "state \<Rightarrow> (string list \<times> result list) \<times> state" where
  "load_progress st =
     (case sent_file st of
        Unparseable \<Rightarrow> (([], []), log ErrorLoadingProgress st)
      | sf \<Rightarrow>
          (let sent_users = (case sf of Stored v \<Rightarrow> v | _ \<Rightarrow> [])
           in case failed_file st of
                Unparseable \<Rightarrow> ((sent_users, []), log ErrorLoadingProgress st)
              | ff \<Rightarrow>
                  (let failed_users = (case ff of Stored v \<Rightarrow> v | _ \<Rightarrow> [])
                   in ((sent_users, failed_users),
                       log (LoadedProgress (length sent_users) (length failed_users)) st))))"

section \<open>Retry policy\<close>

text \<open>
  \<open>validate_user\<close>, lines 120-130.  An \<open>Exception\<close> of \<open>get_entity\<close> is swallowed and gives
  \<open>None\<close>; a \<open>KeyboardInterrupt\<close> is not caught by \<open>except Exception\<close>.
\<close>

definition validate_user :: "env \<Rightarrow> string \<Rightarrow> state \<Rightarrow> (exn + entity option) \<times> state" where
  "validate_user en user_identifier st =
     (let st1 = external (GetEntity user_identifier) st
      in case get_entity_at en (tick st) user_identifier of
           Inr UserEntity \<Rightarrow> (Inr (Some UserEntity), st1)
         | Inr OtherEntity \<Rightarrow> (Inr None, st1)
         | Inl e \<Rightarrow>
             if is_Exception e then (Inr None, log (CouldNotValidate user_identifier e) st1)
             else (Inl e, st1))"

definition send_message :: "env \<Rightarrow> string \<Rightarrow> string \<Rightarrow> state \<Rightarrow> exn option \<times> state" where
  "send_message en user_identifier message st =
     (send_message_at en (tick st) user_identifier,
      external (SendMessage user_identifier message) st)"

definition sleep :: "env \<Rightarrow> int \<Rightarrow> state \<Rightarrow> exn option \<times> state" where
  "sleep en seconds st = (sleep_at en (tick st), external (Sleep seconds) st)"

text \<open>How one pass through the body of the \<open>for\<close> loop of lines 141-184 ends.\<close>

datatype attempt_end = Return result | Raise exn | NextAttempt result

text \<open>The \<open>except\<close> clauses of lines 158-184, in the order of the source.\<close>

fun handle_send_error ::
  "env \<Rightarrow> config \<Rightarrow> string \<Rightarrow> int \<Rightarrow> result \<Rightarrow> exn \<Rightarrow> state \<Rightarrow> attempt_end \<times> state" where
  "handle_send_error en cfg user_identifier attempt res (FloodWaitError wait_time) st =
     (case sleep en wait_time (log (RateLimitHit wait_time) st) of
        (Some e, st') \<Rightarrow> (Raise e, st')
      | (None, st') \<Rightarrow> (NextAttempt res, st'))"
| "handle_send_error en cfg user_identifier attempt res UserPrivacyRestrictedError st =
     (Return (res\<lparr>error := Some ''Privacy settings prevent messaging'', status := Skipped\<rparr>),
      log (PrivacyRestricted user_identifier) (st\<lparr>stats_skipped := stats_skipped st + 1\<rparr>))"
| "handle_send_error en cfg user_identifier attempt res UserNotMutualContactError st =
     (Return (res\<lparr>error := Some ''Privacy settings prevent messaging'', status := Skipped\<rparr>),
      log (PrivacyRestricted user_identifier) (st\<lparr>stats_skipped := stats_skipped st + 1\<rparr>))"
| "handle_send_error en cfg user_identifier attempt res PeerIdInvalidError st =
     (Return (res\<lparr>error := Some ''Invalid peer or messaging forbidden'', status := Skipped\<rparr>),
      log (InvalidPeer user_identifier) (st\<lparr>stats_skipped := stats_skipped st + 1\<rparr>))"
| "handle_send_error en cfg user_identifier attempt res ChatWriteForbiddenError st =
     (Return (res\<lparr>error := Some ''Invalid peer or messaging forbidden'', status := Skipped\<rparr>),
      log (InvalidPeer user_identifier) (st\<lparr>stats_skipped := stats_skipped st + 1\<rparr>))"
| "handle_send_error en cfg user_identifier attempt res (OtherError msg) st =
     (let res' = res\<lparr>error := Some msg\<rparr>;
          st1 = log (ErrorSending user_identifier msg) st
      in if attempt = max_retries cfg - 1
         then (Return res', st1\<lparr>stats_failed := stats_failed st1 + 1\<rparr>)
         else (case sleep en 5 st1 of
                 (Some e, st') \<Rightarrow> (Raise e, st')
               | (None, st') \<Rightarrow> (NextAttempt res', st')))"
| "handle_send_error en cfg user_identifier attempt res KeyboardInterrupt st =
     (Raise KeyboardInterrupt, st)"

text \<open>The \<open>try\<close> block of lines 142-156 followed by its handlers.\<close>

definition attempt_once ::
  "env \<Rightarrow> config \<Rightarrow> string \<Rightarrow> string \<Rightarrow> int \<Rightarrow> result \<Rightarrow> state \<Rightarrow> attempt_end \<times> state" where
  "attempt_once en cfg user_identifier message attempt res st =
     (case validate_user en user_identifier st of
        (Inl e, st1) \<Rightarrow> handle_send_error en cfg user_identifier attempt res e st1
      | (Inr None, st1) \<Rightarrow>
          (Return (res\<lparr>error := Some ''User not found or invalid'', status := Skipped\<rparr>), st1)
      | (Inr (Some user_entity), st1) \<Rightarrow>
          (case send_message en user_identifier message st1 of
             (Some e, st2) \<Rightarrow> handle_send_error en cfg user_identifier attempt res e st2
           | (None, st2) \<Rightarrow>
               (Return (res\<lparr>status := Sent, error := None\<rparr>),
                log (MessageSent user_identifier) (st2\<lparr>stats_sent := stats_sent st2 + 1\<rparr>))))"

text \<open>
  The loop \<open>for attempt in range(self.config.max_retries)\<close> with the \<open>return result\<close> of
  line 186 after it.
\<close>

function retry_loop ::
  "env \<Rightarrow> config \<Rightarrow> string \<Rightarrow> string \<Rightarrow> int \<Rightarrow> result \<Rightarrow> state \<Rightarrow> (exn + result) \<times> state" where
  "retry_loop en cfg user_identifier message attempt res st =
     (if attempt < max_retries cfg then
        (case attempt_once en cfg user_identifier message attempt res st of
           (Return r, st') \<Rightarrow> (Inr r, st')
         | (Raise e, st') \<Rightarrow> (Inl e, st')
         | (NextAttempt r, st') \<Rightarrow> retry_loop en cfg user_identifier message (attempt + 1) r st')
      else (Inr res, st))"
  by pat_completeness auto
termination
  by (relation "measure (\<lambda>(en, cfg, user_identifier, message, attempt, res, st).
        nat (max_retries cfg - attempt))") auto

definition send_message_with_retry ::
  "env \<Rightarrow> config \<Rightarrow> string \<Rightarrow> string \<Rightarrow> state \<Rightarrow> (exn + result) \<times> state" where
  "send_message_with_retry en cfg user_identifier message st =
     retry_loop en cfg user_identifier message 0
       \<lparr>user = user_identifier, status = Failed, error = None, timestamp = now_at en (tick st)\<rparr>
       st"

section \<open>Campaign driver\<close>

text \<open>
  \<open>print_stats\<close> (lines 244-257) and \<open>print_final_stats\<close> (lines 259-271) only print; the
  divisions in them are by the number of users, which is positive where they are called.
\<close>

definition print_stats :: "env \<Rightarrow> nat \<Rightarrow> nat \<Rightarrow> state \<Rightarrow> exn option \<times> state" where
  "print_stats en current n_total st = (print_at en (tick st), external (PrintStats current n_total) st)"

definition print_final_stats :: "env \<Rightarrow> state \<Rightarrow> exn option \<times> state" where
  "print_final_stats en st = (print_at en (tick st), external PrintFinalStats st)"

datatype loop_end = Break | Continue

text \<open>The two handlers of lines 232-238.\<close>

definition handle_user_error ::
  "env \<Rightarrow> string \<Rightarrow> exn \<Rightarrow> string list \<Rightarrow> result list \<Rightarrow> state
   \<Rightarrow> loop_end \<times> string list \<times> result list \<times> state" where
  "handle_user_error en u e sent_users failed_users st =
     (if e = KeyboardInterrupt
      then (Break, sent_users, failed_users,
            save_progress en sent_users failed_users (log Interrupted st))
      else (Continue, sent_users, failed_users, log (UnexpectedError u e) st))"

text \<open>Lines 217-220: the outcome is appended to one of the two lists.\<close>

definition record_result ::
  "string \<Rightarrow> result \<Rightarrow> string list \<Rightarrow> result list \<Rightarrow> string list \<times> result list" where
  "record_result u r sent_users failed_users =
     (if status r = Sent then (sent_users @ [u], failed_users)
      else if status r \<in> {Failed, Skipped} then (sent_users, failed_users @ [r])
      else (sent_users, failed_users))"

text \<open>The body of the loop of lines 210-238 for the \<open>i\<close>-th user of \<open>n_total\<close>.\<close>

definition process_user ::
  "env \<Rightarrow> config \<Rightarrow> string \<Rightarrow> nat \<Rightarrow> nat \<Rightarrow> string \<Rightarrow> string list \<Rightarrow> result list \<Rightarrow> state
   \<Rightarrow> loop_end \<times> string list \<times> result list \<times> state" where
  "process_user en cfg message n_total i u sent_users failed_users st =
     (case send_message_with_retry en cfg u message (log (Processing i n_total u) st) of
        (Inl e, st1) \<Rightarrow> handle_user_error en u e sent_users failed_users st1
      | (Inr r, st1) \<Rightarrow>
          (case record_result u r sent_users failed_users of
             (sent', failed') \<Rightarrow>
               (case (if i mod 10 = 0
                      then print_stats en i n_total (save_progress en sent' failed' st1)
                      else (None, st1)) of
                  (Some e, st2) \<Rightarrow> handle_user_error en u e sent' failed' st2
                | (None, st2) \<Rightarrow>
                    (case (if i < n_total
                           then sleep en (message_delay cfg) (log (Waiting (message_delay cfg)) st2)
                           else (None, st2)) of
                       (Some e, st3) \<Rightarrow> handle_user_error en u e sent' failed' st3
                     | (None, st3) \<Rightarrow> (Continue, sent', failed', st3)))))"

text \<open>\<open>for i, user in enumerate(users, 1)\<close>, with \<open>break\<close>.\<close>

fun bulk_loop ::
  "env \<Rightarrow> config \<Rightarrow> string \<Rightarrow> nat \<Rightarrow> nat \<Rightarrow> string list \<Rightarrow> string list \<Rightarrow> result list \<Rightarrow> state
   \<Rightarrow> string list \<times> result list \<times> state" where
  "bulk_loop en cfg message n_total i [] sent_users failed_users st = (sent_users, failed_users, st)"
| "bulk_loop en cfg message n_total i (u # us) sent_users failed_users st =
     (case process_user en cfg message n_total i u sent_users failed_users st of
        (Break, sent', failed', st') \<Rightarrow> (sent', failed', st')
      | (Continue, sent', failed', st') \<Rightarrow>
          bulk_loop en cfg message n_total (Suc i) us sent' failed' st')"

text \<open>Lines 192-197: what \<open>resume\<close> loads and which users remain.\<close>

definition resume_filter ::
  "string list \<Rightarrow> string list \<Rightarrow> result list \<Rightarrow> string list" where
  "resume_filter users sent_users failed_users =
     filter (\<lambda>u. u \<notin> set (sent_users @ map user failed_users)) users"

text \<open>
  \<open>send_bulk_messages\<close>, lines 188-242.  The result is the exception that leaves the
  function, if any (only \<open>print_final_stats\<close> is called outside every \<open>try\<close>).
\<close>

definition send_bulk_messages ::
  "env \<Rightarrow> config \<Rightarrow> string list \<Rightarrow> string \<Rightarrow> bool \<Rightarrow> state \<Rightarrow> exn option \<times> state" where
  "send_bulk_messages en cfg users message resume st =
     (case (if resume
            then (case load_progress st of
                    ((sent_users, failed_users), st1) \<Rightarrow>
                      (let users' = resume_filter users sent_users failed_users
                       in (sent_users, failed_users, users', log (Resuming (length users')) st1)))
            else ([], [], users, st)) of
        (sent_users, failed_users, users', st1) \<Rightarrow>
          (let st2 = st1\<lparr>stats_total := int (length users')\<rparr>
           in if users' = [] then (None, log NoUsers st2)
              else (case bulk_loop en cfg message (length users') 1 users' sent_users failed_users
                           (log (RateLimit (message_delay cfg)) (log (Starting (length users')) st2)) of
                      (sent', failed', st3) \<Rightarrow>
                        print_final_stats en (save_progress en sent' failed' st3))))"

section \<open>Observations and sample inputs\<close>

text \<open>What a progress file gives when it is read without failure.\<close>

definition stored_or_empty :: "'a list progress_file \<Rightarrow> 'a list" where
  "stored_or_empty f = (case f of Stored v \<Rightarrow> v | _ \<Rightarrow> [])"

text \<open>
  The configuration of \<open>main\<close> (lines 276-281) with the credentials filled in, and an
  environment in which every external call succeeds.
\<close>

definition default_config :: config where
  "default_config = \<lparr>api_id = 12345, api_hash = ''0123456789abcdef'', phone_number = ''+10000000000'',
     session_name = ''bulk_sender'', message_delay = 60, max_retries = 3, batch_size = 100\<rparr>"

definition ok_env :: env where
  "ok_env = \<lparr>get_entity_at = (\<lambda>t u. Inr UserEntity),
     send_message_at = (\<lambda>t u. None),
     sleep_at = (\<lambda>t. None),
     print_at = (\<lambda>t. None),
     write_at = (\<lambda>t. Written),
     now_at = (\<lambda>t. ''2024-01-01T00:00:00'')\<rparr>"

text \<open>The platform answers every send with a rate-limit error asking for 7 seconds.\<close>

definition flood_env :: env where
  "flood_env = ok_env\<lparr>send_message_at := (\<lambda>t u. Some (FloodWaitError 7))\<rparr>"

text \<open>
  The error classes of lines 164 and 171 (policy refusals), and the events that are a
  delivery attempt (a call of \<open>client.send_message\<close>) or a sleep.
\<close>

fun is_refusal :: "exn \<Rightarrow> bool" where
  "is_refusal UserPrivacyRestrictedError = True"
| "is_refusal UserNotMutualContactError = True"
| "is_refusal PeerIdInvalidError = True"
| "is_refusal ChatWriteForbiddenError = True"
| "is_refusal _ = False"

fun is_send :: "event \<Rightarrow> bool" where
  "is_send (SendMessage u m) = True"
| "is_send _ = False"

fun is_send_or_sleep :: "event \<Rightarrow> bool" where
  "is_send_or_sleep (SendMessage u m) = True"
| "is_send_or_sleep (Sleep s) = True"
| "is_send_or_sleep _ = False"

text \<open>The platform answers every send with the same error.\<close>

definition refusal_env :: "exn \<Rightarrow> env" where
  "refusal_env e = ok_env\<lparr>send_message_at := (\<lambda>t u. Some e)\<rparr>"

definition generic_env :: env where
  "generic_env = ok_env\<lparr>send_message_at := (\<lambda>t u. Some (OtherError ''connection reset''))\<rparr>"

text \<open>
  Projections of the history: the recipient an event is about, the recipients of a
  history, and the calls of \<open>save_progress\<close> with their two lists and the three counters.
\<close>

fun event_user :: "event \<Rightarrow> string option" where
  "event_user (GetEntity u) = Some u"
| "event_user (SendMessage u m) = Some u"
| "event_user (Log (CouldNotValidate u e)) = Some u"
| "event_user (Log (MessageSent u)) = Some u"
| "event_user (Log (PrivacyRestricted u)) = Some u"
| "event_user (Log (InvalidPeer u)) = Some u"
| "event_user (Log (ErrorSending u msg)) = Some u"
| "event_user (Log (Processing i n u)) = Some u"
| "event_user (Log (UnexpectedError u e)) = Some u"
| "event_user _ = None"

fun event_users :: "event list \<Rightarrow> string list" where
  "event_users [] = []"
| "event_users (e # es) = (case event_user e of None \<Rightarrow> event_users es | Some u \<Rightarrow> u # event_users es)"

fun saves :: "event list \<Rightarrow> (string list \<times> result list \<times> int \<times> int \<times> int) list" where
  "saves [] = []"
| "saves (SaveProgress s f a b c # es) = (s, f, a, b, c) # saves es"
| "saves (e # es) = saves es"

text \<open>
  Relations between the state before and after a step, used in the proofs: the step saves
  nothing and touches no recipient but \<open>u\<close>; the step leaves the counters alone.
\<close>

definition quiet :: "string \<Rightarrow> state \<Rightarrow> state \<Rightarrow> bool" where
  "quiet u st st' \<longleftrightarrow>
     saves (trace st') = saves (trace st)
     \<and> set (event_users (trace st')) \<subseteq> insert u (set (event_users (trace st)))"

definition same_stats :: "state \<Rightarrow> state \<Rightarrow> bool" where
  "same_stats st st' \<longleftrightarrow>
     stats_sent st' = stats_sent st \<and> stats_failed st' = stats_failed st
     \<and> stats_skipped st' = stats_skipped st"

text \<open>
  What one pass of the retry loop, and the whole loop, leave behind when they start from a
  dictionary with status \<open>Failed\<close>.
\<close>

definition attempt_ok :: "result \<Rightarrow> state \<Rightarrow> attempt_end \<Rightarrow> state \<Rightarrow> bool" where
  "attempt_ok res st out st' \<longleftrightarrow>
     (case out of
        Return r \<Rightarrow> user r = user res
          \<and> stats_sent st' = stats_sent st + (if status r = Sent then 1 else 0)
      | NextAttempt r \<Rightarrow> user r = user res \<and> status r = Failed \<and> same_stats st st'
      | Raise x \<Rightarrow> same_stats st st')"

definition retry_ok :: "result \<Rightarrow> state \<Rightarrow> exn + result \<Rightarrow> state \<Rightarrow> bool" where
  "retry_ok res st out st' \<longleftrightarrow>
     (case out of
        Inr r \<Rightarrow> user r = user res
          \<and> stats_sent st' = stats_sent st + (if status r = Sent then 1 else 0)
      | Inl x \<Rightarrow> same_stats st st')"

text \<open>
  The two lists \<open>send_bulk_messages\<close> starts from (line 190 or line 193) and the list of
  users it iterates over (line 196), as functions of \<open>resume\<close> and the state.
\<close>

definition loaded :: "bool \<Rightarrow> state \<Rightarrow> string list \<times> result list" where
  "loaded resume st = (if resume then fst (load_progress st) else ([], []))"

definition working_list :: "bool \<Rightarrow> string list \<Rightarrow> state \<Rightarrow> string list" where
  "working_list resume users st =
     (if resume then resume_filter users (fst (loaded resume st)) (snd (loaded resume st)) else users)"

text \<open>No identifier is both in the sent list and the user of a failed/skipped record.\<close>

definition exclusive :: "string list \<Rightarrow> result list \<Rightarrow> bool" where
  "exclusive s f \<longleftrightarrow> set s \<inter> set (map user f) = {}"

definition counters :: "state \<Rightarrow> int \<times> int \<times> int" where
  "counters st = (stats_sent st, stats_failed st, stats_skipped st)"

text \<open>Sample inputs for the driver.\<close>

definition dup_env :: env where
  "dup_env = ok_env\<lparr>send_message_at := (\<lambda>t u. if t < 2 then None else Some (OtherError ''timeout''))\<rparr>"

definition alice_failed :: result where
  "alice_failed = \<lparr>user = ''alice'', status = Failed, error = Some ''timeout'',
     timestamp = ''2024-01-01T00:00:00''\<rparr>"

definition overlapping_progress :: state where
  "overlapping_progress = init_state\<lparr>sent_file := Stored [''alice''], failed_file := Stored [alice_failed]\<rparr>"

definition prior_progress :: state where
  "prior_progress = init_state\<lparr>sent_file := Stored [''alice''], failed_file := Stored [\<lparr>user = ''bob'',
     status = Skipped, error = Some ''Privacy settings prevent messaging'',
     timestamp = ''2023-12-31T23:00:00''\<rparr>]\<rparr>"

definition print_fail_env :: env where
  "print_fail_env = ok_env\<lparr>print_at := (\<lambda>t. Some (OtherError ''broken pipe''))\<rparr>"

definition sleep_fail_env :: env where
  "sleep_fail_env = flood_env\<lparr>sleep_at := (\<lambda>t. Some (OtherError ''event loop is closed''))\<rparr>"

definition ten_users :: "string list" where
  "ten_users = [''u01'', ''u02'', ''u03'', ''u04'', ''u05'', ''u06'', ''u07'', ''u08'', ''u09'', ''u10'']"

text \<open>
  The deliveries and the saves of a history, in order; and, for the proofs, what a loop
  in which every delivery succeeds at the first attempt adds to them.
\<close>

fun is_milestone :: "event \<Rightarrow> bool" where
  "is_milestone (SendMessage u m) = True"
| "is_milestone (SaveProgress s f a b c) = True"
| "is_milestone _ = False"

definition milestones :: "event list \<Rightarrow> event list" where
  "milestones es = filter is_milestone es"

fun all_sent_milestones ::
  "string \<Rightarrow> nat \<Rightarrow> string list \<Rightarrow> string list \<Rightarrow> result list \<Rightarrow> int \<Rightarrow> int \<Rightarrow> int \<Rightarrow> event list" where
  "all_sent_milestones m i [] sent failed a b c = []"
| "all_sent_milestones m i (u # us) sent failed a b c =
     SendMessage u m
     # (if i mod 10 = 0 then [SaveProgress (sent @ [u]) failed (a + 1) b c] else [])
     @ all_sent_milestones m (Suc i) us (sent @ [u]) failed (a + 1) b c"

definition twenty_five_users :: "string list" where
  "twenty_five_users =
    [''u01'', ''u02'', ''u03'', ''u04'', ''u05'', ''u06'', ''u07'', ''u08'', ''u09'',
     ''u10'', ''u11'', ''u12'', ''u13'', ''u14'', ''u15'', ''u16'', ''u17'', ''u18'',
     ''u19'', ''u20'', ''u21'', ''u22'', ''u23'', ''u24'', ''u25'']"

text \<open>The number of records with a given status.\<close>

definition count_status :: "status \<Rightarrow> result list \<Rightarrow> int" where
  "count_status x rs = int (length (filter (\<lambda>r. status r = x) rs))"

text \<open>
  For the proofs: how one pass of the retry loop moves \<open>stats['failed']\<close> and
  \<open>stats['skipped']\<close> when the recipient resolves and no rate-limit error is raised.
\<close>

definition attempt_counts :: "config \<Rightarrow> int \<Rightarrow> state \<Rightarrow> attempt_end \<Rightarrow> state \<Rightarrow> bool" where
  "attempt_counts cfg attempt st out st' \<longleftrightarrow>
     (case out of
        Return r \<Rightarrow>
          stats_failed st' = stats_failed st + (if status r = Failed then 1 else 0)
          \<and> stats_skipped st' = stats_skipped st + (if status r = Skipped then 1 else 0)
      | NextAttempt r \<Rightarrow> attempt \<noteq> max_retries cfg - 1
      | Raise x \<Rightarrow> True)"

text \<open>The identifier \<open>ghost\<close> does not resolve to a user; everything else succeeds.\<close>

definition ghost_env :: env where
  "ghost_env = ok_env\<lparr>get_entity_at :=
     (\<lambda>t u. if u = ''ghost'' then Inl (OtherError ''Cannot find any entity'') else Inr UserEntity)\<rparr>"

text \<open>
  The state in which \<open>send_bulk_messages\<close> enters its loop when \<open>resume\<close> is false and the
  list has \<open>n\<close> users (lines 199-208), and the state of that loop after its first \<open>k\<close>
  recipients: the loop run on the first \<open>k\<close> users, with the total left at the length of
  the whole list.
\<close>

definition loop_start :: "config \<Rightarrow> nat \<Rightarrow> state \<Rightarrow> state" where
  "loop_start cfg n st =
     log (RateLimit (message_delay cfg)) (log (Starting n) (st\<lparr>stats_total := int n\<rparr>))"

definition state_after :: "env \<Rightarrow> config \<Rightarrow> string \<Rightarrow> string list \<Rightarrow> nat \<Rightarrow> state \<Rightarrow> state" where
  "state_after en cfg m users k st =
     snd (snd (bulk_loop en cfg m (length users) 1 (take k users) [] []
                 (loop_start cfg (length users) st)))"

section \<open>Reading progress files that hold any document\<close>

text \<open>
  \<open>load_progress\<close> on any two files.  The type \<open>progress_file\<close> above covers the files that
  \<open>save_progress\<close> writes: JSON lists of identifiers and of outcome records.  A file on
  disk may hold any JSON document, and \<open>json.load\<close> returns whatever it holds: \<open>None\<close>, a
  bool, a number (kept here as its literal), a string, a list or a dictionary (its
  key/value pairs; a key that occurs twice counts once in Python).
\<close>

datatype json =
    JNull
  | JBool bool
  | JNumber string
  | JString string
  | JArray "json list"
  | JObject "(string \<times> json) list"

text \<open>
  What is under one of the two paths: nothing, a file on which \<open>open\<close> or \<open>json.load\<close>
  raises, or a file that parses to a document.
\<close>

datatype raw_file = Missing | Unreadable | Document json

text \<open>Python's \<open>len\<close>: \<open>None\<close> stands for the \<open>TypeError\<close> of a value that has no length.\<close>

fun py_len :: "json \<Rightarrow> nat option" where
  "py_len (JString s) = Some (length s)"
| "py_len (JArray xs) = Some (length xs)"
| "py_len (JObject kvs) = Some (length (remdups (map fst kvs)))"
| "py_len _ = None"

fun is_list :: "json \<Rightarrow> bool" where
  "is_list (JArray xs) = True"
| "is_list _ = False"

definition parsed_or_empty :: "raw_file \<Rightarrow> json" where
  "parsed_or_empty f = (case f of Document j \<Rightarrow> j | _ \<Rightarrow> JArray [])"

text \<open>
  Lines 100-118 again, on these files: the two values returned and the one message
  logged.  Both variables start as the empty list; each file that exists is loaded; the
  \<open>info\<close> line takes \<open>len\<close> of both values; the first failure inside the \<open>try\<close> (an
  unreadable file, or a value without a length) is logged instead, and whatever has
  been assigned by then is returned.
\<close>

definition load_progress_documents :: "raw_file \<Rightarrow> raw_file \<Rightarrow> (json \<times> json) \<times> log_msg" where
  "load_progress_documents sf ff =
     (case sf of
        Unreadable \<Rightarrow> ((JArray [], JArray []), ErrorLoadingProgress)
      | _ \<Rightarrow>
          (let sent_users = (case sf of Document j \<Rightarrow> j | _ \<Rightarrow> JArray [])
           in case ff of
                Unreadable \<Rightarrow> ((sent_users, JArray []), ErrorLoadingProgress)
              | _ \<Rightarrow>
                  (let failed_users = (case ff of Document j \<Rightarrow> j | _ \<Rightarrow> JArray [])
                   in ((sent_users, failed_users),
                       (case py_len sent_users of
                          None \<Rightarrow> ErrorLoadingProgress
                        | Some n \<Rightarrow>
                            (case py_len failed_users of
                               None \<Rightarrow> ErrorLoadingProgress
                             | Some k \<Rightarrow> LoadedProgress n k))))))"

text \<open>
  The documents that \<open>json.dump\<close> writes for the two lists of \<open>save_progress\<close>, and the
  file they make.
\<close>

fun status_text :: "status \<Rightarrow> string" where
  "status_text Sent = ''sent''"
| "status_text Failed = ''failed''"
| "status_text Skipped = ''skipped''"

definition json_of_result :: "result \<Rightarrow> json" where
  "json_of_result r =
     JObject [(''user'', JString (user r)),
              (''status'', JString (status_text (status r))),
              (''error'', (case error r of None \<Rightarrow> JNull | Some e \<Rightarrow> JString e)),
              (''timestamp'', JString (timestamp r))]"

definition raw_of :: "('a \<Rightarrow> json) \<Rightarrow> 'a list progress_file \<Rightarrow> raw_file" where
  "raw_of enc f =
     (case f of Absent \<Rightarrow> Missing | Unparseable \<Rightarrow> Unreadable
      | Stored v \<Rightarrow> Document (JArray (map enc v)))"

definition bob_skipped :: result where
  "bob_skipped = \<lparr>user = ''bob'', status = Skipped, error = Some ''Privacy settings prevent messaging'',
     timestamp = ''2023-12-31T23:00:00''\<rparr>"

section \<open>Basic facts about the state\<close>

lemma log_simps [simp]:
  "trace (log m st) = trace st @ [Log m]"
  "tick (log m st) = tick st"
  "stats_sent (log m st) = stats_sent st"
  "stats_failed (log m st) = stats_failed st"
  "stats_skipped (log m st) = stats_skipped st"
  "stats_total (log m st) = stats_total st"
  "sent_file (log m st) = sent_file st"
  "failed_file (log m st) = failed_file st"
  by (simp_all add: log_def emit_def)

lemma external_simps [simp]:
  "trace (external e st) = trace st @ [e]"
  "tick (external e st) = Suc (tick st)"
  "stats_sent (external e st) = stats_sent st"
  "stats_failed (external e st) = stats_failed st"
  "stats_skipped (external e st) = stats_skipped st"
  "stats_total (external e st) = stats_total st"
  "sent_file (external e st) = sent_file st"
  "failed_file (external e st) = failed_file st"
  by (simp_all add: external_def)

lemma save_progress_stats [simp]:
  "stats_sent (save_progress en s f st) = stats_sent st"
  "stats_failed (save_progress en s f st) = stats_failed st"
  "stats_skipped (save_progress en s f st) = stats_skipped st"
  "stats_total (save_progress en s f st) = stats_total st"
  by (simp_all add: save_progress_def emit_def Let_def split: write_result.splits)

lemma save_progress_trace:
  "\<exists>m. trace (save_progress en s f st) =
     trace st @ [SaveProgress s f (stats_sent st) (stats_failed st) (stats_skipped st), Log m]"
  by (simp add: save_progress_def emit_def Let_def split: write_result.splits)

section \<open>Rate limits in the retry policy; loading progress\<close>

text \<open>
  One pass of the loop that meets a rate-limit error asking for \<open>w\<close> seconds: the policy
  logs, sleeps exactly \<open>w\<close> seconds and goes to the next pass with the dictionary
  unchanged.
\<close>

lemma rate_limit_sleeps_then_next_attempt:
  assumes "get_entity_at en (tick st) u = Inr UserEntity"
      and "send_message_at en (Suc (tick st)) u = Some (FloodWaitError w)"
      and "sleep_at en (Suc (Suc (tick st))) = None"
  shows "\<exists>st'. attempt_once en cfg u m attempt res st = (NextAttempt res, st')
           \<and> trace st' = trace st @ [GetEntity u, SendMessage u m, Log (RateLimitHit w), Sleep w]"
  using assms
  by (simp add: attempt_once_def validate_user_def send_message_def sleep_def)

text \<open>
  C1.  The claim: after a rate-limit error asking for \<open>W\<close> seconds the retry policy sleeps
  \<open>W\<close> seconds before the next attempt, and a recipient never ends \<open>Failed\<close> because of
  rate-limit errors alone.  The code does sleep, but every rate-limit error uses up one
  pass of \<open>for attempt in range(max_retries)\<close>: with \<open>max_retries = 3\<close> and a platform that
  answers each send with \<open>FloodWaitError(7)\<close>, the loop runs out after three sends and
  three sleeps of 7 seconds, and line 186 returns the dictionary as it was created, with
  status \<open>'failed'\<close> and no error text; \<open>stats['failed']\<close> stays 0.
\<close>

theorem rate_limit_only_ends_failed:
  "send_message_with_retry flood_env default_config ''alice'' ''hi'' init_state =
     (Inr \<lparr>user = ''alice'', status = Failed, error = None, timestamp = ''2024-01-01T00:00:00''\<rparr>,
      init_state\<lparr>tick := 9,
        trace := [GetEntity ''alice'', SendMessage ''alice'' ''hi'', Log (RateLimitHit 7), Sleep 7,
                  GetEntity ''alice'', SendMessage ''alice'' ''hi'', Log (RateLimitHit 7), Sleep 7,
                  GetEntity ''alice'', SendMessage ''alice'' ''hi'', Log (RateLimitHit 7), Sleep 7]\<rparr>)"
  by code_simp

text \<open>
  On the files that \<open>save_progress\<close> writes, \<open>load_progress_documents\<close> is \<open>load_progress\<close>:
  the same two lists, as documents, and the same log message.
\<close>

lemma load_progress_on_saved_files:
  "fst (load_progress_documents (raw_of JString (sent_file st)) (raw_of json_of_result (failed_file st)))
     = (JArray (map JString (fst (fst (load_progress st)))),
        JArray (map json_of_result (snd (fst (load_progress st)))))
   \<and> snd (load_progress st)
     = log (snd (load_progress_documents (raw_of JString (sent_file st))
                   (raw_of json_of_result (failed_file st)))) st"
  by (simp add: load_progress_documents_def load_progress_def raw_of_def Let_def
        split: progress_file.splits)

text \<open>
  C8, as stated, fails in two ways.  When the sent file reads back and the failed/skipped
  file does not, \<open>load_progress\<close> returns the sent list it has already loaded, not an
  empty one.  When the sent file holds the document \<open>null\<close>, \<open>json.load\<close> gives \<open>None\<close>,
  \<open>len(None)\<close> raises inside the \<open>try\<close> at line 114, the error is logged, and \<open>None\<close> is
  returned next to the failed/skipped list: not a pair of collections.
\<close>

theorem load_progress_keeps_sent_list:
  "fst (load_progress (init_state\<lparr>sent_file := Stored [''alice''], failed_file := Unparseable\<rparr>))
     = ([''alice''], [])
   \<and> load_progress_documents (Document (JArray [JString ''alice''])) Unreadable
     = ((JArray [JString ''alice''], JArray []), ErrorLoadingProgress)
   \<and> load_progress_documents (Document JNull) (Document (JArray [json_of_result bob_skipped]))
     = ((JNull, JArray [json_of_result bob_skipped]), ErrorLoadingProgress)
   \<and> \<not> is_list JNull"
  by (simp add: load_progress_def load_progress_documents_def init_state_def Let_def)

text \<open>
  C8, amended.  \<open>load_progress\<close> returns a pair in every state of the two files: every
  failure of its body is caught and logged.
  \<^item> Both files absent: two empty lists.
  \<^item> The sent file cannot be read or parsed: two empty lists, after logging the error.
  \<^item> The sent file is absent or parses and the failed/skipped file cannot be read or
    parsed: the sent value already assigned and an empty list, after logging the error.
  \<^item> Otherwise each value is the empty list for an absent file and the parsed document
    for a present one, and the error is logged exactly when one of the two values has
    no length (\<open>null\<close>, a bool or a number).
  \<^item> The first value returned is a list unless the sent file parses to a non-list; the
    second is a list unless both files can be read and the failed/skipped file parses
    to a non-list.
\<close>

theorem load_progress_never_raises:
  "(sf = Missing \<and> ff = Missing \<longrightarrow>
      load_progress_documents sf ff = ((JArray [], JArray []), LoadedProgress 0 0))
   \<and> (sf = Unreadable \<longrightarrow>
      load_progress_documents sf ff = ((JArray [], JArray []), ErrorLoadingProgress))
   \<and> (sf \<noteq> Unreadable \<and> ff = Unreadable \<longrightarrow>
      load_progress_documents sf ff = ((parsed_or_empty sf, JArray []), ErrorLoadingProgress))
   \<and> (sf \<noteq> Unreadable \<and> ff \<noteq> Unreadable \<longrightarrow>
      fst (load_progress_documents sf ff) = (parsed_or_empty sf, parsed_or_empty ff)
      \<and> (snd (load_progress_documents sf ff) = ErrorLoadingProgress
           \<longleftrightarrow> py_len (parsed_or_empty sf) = None \<or> py_len (parsed_or_empty ff) = None))
   \<and> (is_list (fst (fst (load_progress_documents sf ff)))
        \<longleftrightarrow> (\<forall>j. sf = Document j \<longrightarrow> is_list j))
   \<and> (is_list (snd (fst (load_progress_documents sf ff)))
        \<longleftrightarrow> sf = Unreadable \<or> (\<forall>j. ff = Document j \<longrightarrow> is_list j))"
proof (intro conjI impI)
  show "load_progress_documents sf ff = ((JArray [], JArray []), LoadedProgress 0 0)"
    if "sf = Missing \<and> ff = Missing"
    using that by (simp add: load_progress_documents_def Let_def)
  show "load_progress_documents sf ff = ((JArray [], JArray []), ErrorLoadingProgress)"
    if "sf = Unreadable"
    using that by (simp add: load_progress_documents_def Let_def)
  show "load_progress_documents sf ff = ((parsed_or_empty sf, JArray []), ErrorLoadingProgress)"
    if "sf \<noteq> Unreadable \<and> ff = Unreadable"
    using that
    by (cases sf) (simp_all add: load_progress_documents_def parsed_or_empty_def Let_def)
  show "fst (load_progress_documents sf ff) = (parsed_or_empty sf, parsed_or_empty ff)"
    if "sf \<noteq> Unreadable \<and> ff \<noteq> Unreadable"
    using that
    by (cases sf; cases ff) (simp_all add: load_progress_documents_def parsed_or_empty_def Let_def)
  show "snd (load_progress_documents sf ff) = ErrorLoadingProgress
           \<longleftrightarrow> py_len (parsed_or_empty sf) = None \<or> py_len (parsed_or_empty ff) = None"
    if "sf \<noteq> Unreadable \<and> ff \<noteq> Unreadable"
    using that
    by (cases sf; cases ff)
       (auto simp: load_progress_documents_def parsed_or_empty_def Let_def split: option.splits)
  show "is_list (fst (fst (load_progress_documents sf ff)))
        \<longleftrightarrow> (\<forall>j. sf = Document j \<longrightarrow> is_list j)"
    by (cases sf; cases ff) (simp_all add: load_progress_documents_def Let_def)
  show "is_list (snd (fst (load_progress_documents sf ff)))
        \<longleftrightarrow> sf = Unreadable \<or> (\<forall>j. ff = Document j \<longrightarrow> is_list j)"
    by (cases sf; cases ff) (simp_all add: load_progress_documents_def Let_def)
qed

theorem load_progress_never_raises_witness:
  "load_progress_documents Missing Missing = ((JArray [], JArray []), LoadedProgress 0 0)
   \<and> load_progress_documents Unreadable (Document (JArray [json_of_result bob_skipped]))
       = ((JArray [], JArray []), ErrorLoadingProgress)
   \<and> load_progress_documents (Document (JArray [JString ''alice''])) Unreadable
       = ((JArray [JString ''alice''], JArray []), ErrorLoadingProgress)
   \<and> fst (load_progress_documents (Document (JArray [JString ''alice'']))
             (Document (JArray [json_of_result bob_skipped])))
       = (JArray [JString ''alice''], JArray [json_of_result bob_skipped])
   \<and> snd (load_progress_documents (Document (JArray [JString ''alice'']))
             (Document (JArray [json_of_result bob_skipped])))
       \<noteq> ErrorLoadingProgress
   \<and> snd (load_progress_documents (Document (JNumber ''5''))
             (Document (JArray [json_of_result bob_skipped])))
       = ErrorLoadingProgress
   \<and> \<not> is_list (fst (fst (load_progress_documents (Document (JNumber ''5''))
             (Document (JArray [json_of_result bob_skipped])))))"
proof -
  let ?s = "Document (JArray [JString ''alice''])"
  let ?f = "Document (JArray [json_of_result bob_skipped])"
  let ?n = "Document (JNumber ''5'')"
  have a: "load_progress_documents Missing Missing = ((JArray [], JArray []), LoadedProgress 0 0)"
    using load_progress_never_raises [of Missing Missing] by blast
  have b: "load_progress_documents Unreadable ?f = ((JArray [], JArray []), ErrorLoadingProgress)"
    using load_progress_never_raises [of Unreadable ?f] by blast
  have c: "load_progress_documents ?s Unreadable
             = ((JArray [JString ''alice''], JArray []), ErrorLoadingProgress)"
    using load_progress_never_raises [of ?s Unreadable] by (simp add: parsed_or_empty_def)
  have d: "fst (load_progress_documents ?s ?f)
             = (JArray [JString ''alice''], JArray [json_of_result bob_skipped])"
    "snd (load_progress_documents ?s ?f) \<noteq> ErrorLoadingProgress"
    using load_progress_never_raises [of ?s ?f] by (simp_all add: parsed_or_empty_def)
  have e: "snd (load_progress_documents ?n ?f) = ErrorLoadingProgress"
    "\<not> is_list (fst (fst (load_progress_documents ?n ?f)))"
    using load_progress_never_raises [of ?n ?f] by (simp_all add: parsed_or_empty_def)
  from a b c d e show ?thesis by blast
qed

section \<open>The retry policy: refusals and generic errors\<close>

declare retry_loop.simps [simp del]

lemma attempt_once_refusal:
  assumes "is_refusal e"
      and "get_entity_at en (tick st) u = Inr UserEntity"
      and "send_message_at en (Suc (tick st)) u = Some e"
  shows "\<exists>r st'. attempt_once en cfg u m attempt res st = (Return r, st')
           \<and> status r = Skipped \<and> user r = user res
           \<and> (\<exists>l. trace st' = trace st @ [GetEntity u, SendMessage u m, Log l])
           \<and> stats_skipped st' = stats_skipped st + 1"
  using assms
  by (cases e) (simp_all add: attempt_once_def validate_user_def send_message_def)

text \<open>
  C6.  A recipient resolves and the delivery attempt raises one of the four refusal errors
  (privacy restricted, not a mutual contact, invalid peer, write forbidden).  Then the
  retry policy returns an outcome with status \<open>Skipped\<close>, and what it has done is
  exactly one resolution, one delivery attempt and one log line: no sleep and no further
  attempt.  The first conjunct is \<open>send_message_with_retry\<close> itself; the second is the
  loop entered at any attempt number with any result dictionary, so the same holds when
  the refusal comes after earlier attempts of the same call.
\<close>

theorem privacy_refusal_is_skipped_without_retry:
  assumes "is_refusal e"
      and "get_entity_at en (tick st) u = Inr UserEntity"
      and "send_message_at en (Suc (tick st)) u = Some e"
  shows "(0 < max_retries cfg \<longrightarrow>
           (\<exists>r st'. send_message_with_retry en cfg u m st = (Inr r, st')
              \<and> status r = Skipped \<and> user r = u
              \<and> (\<exists>l. trace st' = trace st @ [GetEntity u, SendMessage u m, Log l])
              \<and> stats_skipped st' = stats_skipped st + 1))
       \<and> (attempt < max_retries cfg \<longrightarrow>
           (\<exists>r st'. retry_loop en cfg u m attempt res st = (Inr r, st')
              \<and> status r = Skipped \<and> user r = user res
              \<and> (\<exists>l. trace st' = trace st @ [GetEntity u, SendMessage u m, Log l])
              \<and> stats_skipped st' = stats_skipped st + 1))"
proof -
  have loop: "\<exists>r st'. retry_loop en cfg u m a res' st = (Inr r, st')
              \<and> status r = Skipped \<and> user r = user res'
              \<and> (\<exists>l. trace st' = trace st @ [GetEntity u, SendMessage u m, Log l])
              \<and> stats_skipped st' = stats_skipped st + 1"
    if lt: "a < max_retries cfg" for a res'
  proof -
    from attempt_once_refusal [OF assms, of cfg m a res']
    obtain r st' where a: "attempt_once en cfg u m a res' st = (Return r, st')"
      and rest: "status r = Skipped" "user r = user res'"
        "\<exists>l. trace st' = trace st @ [GetEntity u, SendMessage u m, Log l]"
        "stats_skipped st' = stats_skipped st + 1"
      by blast
    have "retry_loop en cfg u m a res' st = (Inr r, st')"
      using lt a by (subst retry_loop.simps) simp
    with rest show ?thesis by blast
  qed
  show ?thesis
    using loop [of attempt res]
      loop [of 0 "\<lparr>user = u, status = Failed, error = None, timestamp = now_at en (tick st)\<rparr>"]
    by (simp add: send_message_with_retry_def)
qed

theorem privacy_refusal_is_skipped_without_retry_witness:
  "is_refusal UserPrivacyRestrictedError
   \<and> get_entity_at (refusal_env UserPrivacyRestrictedError) (tick init_state) ''bob'' = Inr UserEntity
   \<and> send_message_at (refusal_env UserPrivacyRestrictedError) (Suc (tick init_state)) ''bob''
       = Some UserPrivacyRestrictedError
   \<and> 0 < max_retries default_config
   \<and> (\<exists>r st'. send_message_with_retry (refusal_env UserPrivacyRestrictedError) default_config
                 ''bob'' ''hi'' init_state = (Inr r, st')
           \<and> status r = Skipped \<and> user r = ''bob''
           \<and> (\<exists>l. trace st' = [GetEntity ''bob'', SendMessage ''bob'' ''hi'', Log l])
           \<and> stats_skipped st' = 1)"
proof -
  let ?en = "refusal_env UserPrivacyRestrictedError"
  have h1: "is_refusal UserPrivacyRestrictedError" by simp
  have h2: "get_entity_at ?en (tick init_state) ''bob'' = Inr UserEntity"
    by (simp add: refusal_env_def ok_env_def)
  have h3: "send_message_at ?en (Suc (tick init_state)) ''bob'' = Some UserPrivacyRestrictedError"
    by (simp add: refusal_env_def ok_env_def)
  have h4: "0 < max_retries default_config" by (simp add: default_config_def)
  show ?thesis
    using h1 h2 h3 h4
      privacy_refusal_is_skipped_without_retry [OF h1 h2 h3, of default_config "''hi''" 0]
    by (simp add: init_state_def)
qed

lemma attempt_once_generic:
  assumes "get_entity_at en (tick st) u = Inr UserEntity"
      and "send_message_at en (Suc (tick st)) u = Some (OtherError msg)"
      and "sleep_at en (Suc (Suc (tick st))) = None"
  shows "attempt_once en cfg u m attempt res st =
           (if attempt = max_retries cfg - 1
            then (Return (res\<lparr>error := Some msg\<rparr>),
                  (log (ErrorSending u msg) (external (SendMessage u m) (external (GetEntity u) st)))
                    \<lparr>stats_failed := stats_failed st + 1\<rparr>)
            else (NextAttempt (res\<lparr>error := Some msg\<rparr>),
                  external (Sleep 5) (log (ErrorSending u msg)
                    (external (SendMessage u m) (external (GetEntity u) st)))))"
  using assms
  by (simp add: attempt_once_def validate_user_def send_message_def sleep_def Let_def)

lemma retry_loop_generic:
  assumes res: "\<forall>t. get_entity_at en t u = Inr UserEntity"
      and gen: "\<forall>t. \<exists>msg. send_message_at en t u = Some (OtherError msg)"
      and slp: "\<forall>t. sleep_at en t = None"
  shows "attempt < max_retries cfg \<Longrightarrow>
         \<exists>r st'. retry_loop en cfg u m attempt res0 st = (Inr r, st')
           \<and> status r = status res0 \<and> user r = user res0
           \<and> filter is_send_or_sleep (trace st') =
               filter is_send_or_sleep (trace st)
               @ concat (replicate (nat (max_retries cfg - 1 - attempt)) [SendMessage u m, Sleep 5])
               @ [SendMessage u m]
           \<and> stats_failed st' = stats_failed st + 1"
proof (induction "nat (max_retries cfg - attempt)" arbitrary: attempt res0 st)
  case 0
  then show ?case by simp
next
  case (Suc k)
  obtain msg where msg: "send_message_at en (Suc (tick st)) u = Some (OtherError msg)"
    using gen by blast
  let ?st0 = "log (ErrorSending u msg) (external (SendMessage u m) (external (GetEntity u) st))"
  let ?r1 = "res0\<lparr>error := Some msg\<rparr>"
  have a: "attempt_once en cfg u m attempt res0 st =
           (if attempt = max_retries cfg - 1
            then (Return ?r1, ?st0\<lparr>stats_failed := stats_failed st + 1\<rparr>)
            else (NextAttempt ?r1, external (Sleep 5) ?st0))"
    using res msg slp by (intro attempt_once_generic) auto
  show ?case
  proof (cases "attempt = max_retries cfg - 1")
    case True
    then show ?thesis
      using Suc.prems a by (subst retry_loop.simps) simp
  next
    case False
    let ?st1 = "external (Sleep 5) ?st0"
    have lt: "attempt + 1 < max_retries cfg" using False Suc.prems by simp
    have k: "k = nat (max_retries cfg - (attempt + 1))" using Suc.hyps(2) by simp
    from Suc.hyps(1) [OF k lt, of ?r1 ?st1]
    obtain r st' where ih: "retry_loop en cfg u m (attempt + 1) ?r1 ?st1 = (Inr r, st')"
      "status r = status ?r1" "user r = user ?r1"
      "filter is_send_or_sleep (trace st') =
         filter is_send_or_sleep (trace ?st1)
         @ concat (replicate (nat (max_retries cfg - 1 - (attempt + 1))) [SendMessage u m, Sleep 5])
         @ [SendMessage u m]"
      "stats_failed st' = stats_failed ?st1 + 1"
      by blast
    have rl: "retry_loop en cfg u m attempt res0 st = (Inr r, st')"
      using Suc.prems a False ih(1) by (subst retry_loop.simps) simp
    have n: "nat (max_retries cfg - 1 - attempt) = Suc (nat (max_retries cfg - 1 - (attempt + 1)))"
      using lt by simp
    show ?thesis
      using rl ih(2-) by (simp add: n)
  qed
qed

lemma filter_send_pattern:
  "filter is_send (concat (replicate k [SendMessage u m, Sleep 5])) = replicate k (SendMessage u m)"
  by (induction k) simp_all

lemma send_or_sleep_and_send [simp]: "(is_send_or_sleep e \<and> is_send e) = is_send e"
  by (cases e) simp_all

lemma filter_send_send_or_sleep:
  "filter is_send (filter is_send_or_sleep xs) = filter is_send xs"
  by simp

text \<open>
  C2.  With \<open>max_retries = N\<close>, \<open>N \<ge> 1\<close>, a recipient that resolves at every attempt and
  a platform that answers every send with a generic error (and sleeps that return
  normally), \<open>send_message_with_retry\<close> returns an outcome with status \<open>Failed\<close>.  Its
  delivery attempts and sleeps are, in order, \<open>N - 1\<close> times an attempt followed by a
  sleep of 5 seconds, and then a last attempt: \<open>N\<close> attempts in all, 5 seconds between
  consecutive ones.  \<open>stats['failed']\<close> goes up by one.
\<close>

theorem generic_errors_use_all_retries:
  assumes "1 \<le> max_retries cfg"
      and "\<forall>t. get_entity_at en t u = Inr UserEntity"
      and "\<forall>t. \<exists>msg. send_message_at en t u = Some (OtherError msg)"
      and "\<forall>t. sleep_at en t = None"
  shows "(\<exists>r. fst (send_message_with_retry en cfg u m st) = Inr r \<and> status r = Failed \<and> user r = u)
       \<and> filter is_send_or_sleep (trace (snd (send_message_with_retry en cfg u m st))) =
           filter is_send_or_sleep (trace st)
           @ concat (replicate (nat (max_retries cfg) - 1) [SendMessage u m, Sleep 5])
           @ [SendMessage u m]
       \<and> length (filter is_send (trace (snd (send_message_with_retry en cfg u m st)))) =
           length (filter is_send (trace st)) + nat (max_retries cfg)
       \<and> stats_failed (snd (send_message_with_retry en cfg u m st)) = stats_failed st + 1"
proof -
  let ?res = "\<lparr>user = u, status = Failed, error = None, timestamp = now_at en (tick st)\<rparr>"
  have lt: "0 < max_retries cfg" using assms(1) by simp
  from retry_loop_generic [OF assms(2-4) lt, of m ?res st]
  obtain r st' where rl: "retry_loop en cfg u m 0 ?res st = (Inr r, st')"
    and r: "status r = Failed" "user r = u"
    and tr: "filter is_send_or_sleep (trace st') =
               filter is_send_or_sleep (trace st)
               @ concat (replicate (nat (max_retries cfg - 1 - 0)) [SendMessage u m, Sleep 5])
               @ [SendMessage u m]"
    and sf: "stats_failed st' = stats_failed st + 1"
    by auto
  have n: "nat (max_retries cfg - 1 - 0) = nat (max_retries cfg) - 1" by simp
  have "filter is_send (trace st') = filter is_send (filter is_send_or_sleep (trace st'))"
    by (simp only: filter_send_send_or_sleep)
  also have "\<dots> = filter is_send (filter is_send_or_sleep (trace st)
                @ concat (replicate (nat (max_retries cfg) - 1) [SendMessage u m, Sleep 5])
                @ [SendMessage u m])"
    by (simp only: tr n)
  also have "\<dots> = filter is_send (trace st)
                @ replicate (Suc (nat (max_retries cfg) - 1)) (SendMessage u m)"
    by (simp add: filter_send_pattern filter_send_send_or_sleep replicate_append_same)
  finally have cnt: "length (filter is_send (trace st')) =
                    length (filter is_send (trace st)) + nat (max_retries cfg)"
    using lt by simp
  show ?thesis
    using rl r tr [unfolded n] sf cnt by (simp add: send_message_with_retry_def)
qed

theorem generic_errors_use_all_retries_witness:
  "1 \<le> max_retries default_config
   \<and> (\<forall>t. get_entity_at generic_env t ''alice'' = Inr UserEntity)
   \<and> (\<forall>t. \<exists>msg. send_message_at generic_env t ''alice'' = Some (OtherError msg))
   \<and> (\<forall>t. sleep_at generic_env t = None)
   \<and> (\<exists>r. fst (send_message_with_retry generic_env default_config ''alice'' ''hi'' init_state) = Inr r
          \<and> status r = Failed \<and> user r = ''alice'')
   \<and> filter is_send_or_sleep
        (trace (snd (send_message_with_retry generic_env default_config ''alice'' ''hi'' init_state))) =
       [SendMessage ''alice'' ''hi'', Sleep 5, SendMessage ''alice'' ''hi'', Sleep 5,
        SendMessage ''alice'' ''hi'']
   \<and> length (filter is_send
        (trace (snd (send_message_with_retry generic_env default_config ''alice'' ''hi'' init_state)))) = 3"
proof -
  have h1: "1 \<le> max_retries default_config" by (simp add: default_config_def)
  have h2: "\<forall>t. get_entity_at generic_env t ''alice'' = Inr UserEntity"
    by (simp add: generic_env_def ok_env_def)
  have h3: "\<forall>t. \<exists>msg. send_message_at generic_env t ''alice'' = Some (OtherError msg)"
    by (simp add: generic_env_def ok_env_def)
  have h4: "\<forall>t. sleep_at generic_env t = None"
    by (simp add: generic_env_def ok_env_def)
  have n: "nat (max_retries default_config) = 3" by (simp add: default_config_def)
  show ?thesis
    using h1 h2 h3 h4
      generic_errors_use_all_retries [OF h1 h2 h3 h4, of "''hi''" init_state]
    by (simp add: n init_state_def numeral_3_eq_3)
qed

section \<open>What the retry policy and the driver leave behind\<close>

lemma saves_append [simp]: "saves (xs @ ys) = saves xs @ saves ys"
  by (induction xs rule: saves.induct) simp_all

lemma event_users_append [simp]: "event_users (xs @ ys) = event_users xs @ event_users ys"
  by (induction xs) (simp_all split: option.splits)

lemma quiet_refl [simp]: "quiet u st st"
  by (auto simp: quiet_def)

lemma quiet_trans: "quiet u a b \<Longrightarrow> quiet u b c \<Longrightarrow> quiet u a c"
  by (auto simp: quiet_def)

lemma same_stats_refl [simp]: "same_stats st st"
  by (simp add: same_stats_def)

lemma same_stats_trans: "same_stats a b \<Longrightarrow> same_stats b c \<Longrightarrow> same_stats a c"
  by (simp add: same_stats_def)

lemma validate_user_effects:
  "validate_user en u st = (v, st') \<Longrightarrow> quiet u st st' \<and> same_stats st st'"
  by (auto simp: validate_user_def Let_def quiet_def same_stats_def
        split: sum.splits entity.splits if_splits)

lemma send_message_effects:
  "send_message en u m st = (v, st') \<Longrightarrow> quiet u st st' \<and> same_stats st st'"
  by (auto simp: send_message_def quiet_def same_stats_def)

lemma sleep_effects:
  "sleep en s st = (v, st') \<Longrightarrow> quiet u st st' \<and> same_stats st st'"
  by (auto simp: sleep_def quiet_def same_stats_def)

lemma handle_send_error_effects:
  assumes "handle_send_error en cfg u attempt res e st = (out, st')"
      and "status res = Failed"
  shows "quiet u st st' \<and> attempt_ok res st out st'"
  using assms
  by (cases e)
     (auto simp: sleep_def Let_def quiet_def same_stats_def attempt_ok_def
        split: prod.splits option.splits if_splits)

lemma attempt_ok_shift:
  "same_stats st st1 \<Longrightarrow> attempt_ok res st1 out st' \<Longrightarrow> attempt_ok res st out st'"
  by (auto simp: attempt_ok_def same_stats_def split: attempt_end.splits)

lemma attempt_once_effects:
  assumes a: "attempt_once en cfg u m attempt res st = (out, st')"
      and f: "status res = Failed"
  shows "quiet u st st' \<and> attempt_ok res st out st'"
proof -
  obtain v st1 where v: "validate_user en u st = (v, st1)" by (cases "validate_user en u st")
  note e1 = validate_user_effects [OF v]
  show ?thesis
  proof (cases v)
    case (Inl e)
    then have "handle_send_error en cfg u attempt res e st1 = (out, st')"
      using a v by (simp add: attempt_once_def)
    from handle_send_error_effects [OF this f] e1 show ?thesis
      by (blast intro: quiet_trans attempt_ok_shift)
  next
    case (Inr ent)
    show ?thesis
    proof (cases ent)
      case None
      then show ?thesis
        using a v Inr e1 by (auto simp: attempt_once_def attempt_ok_def same_stats_def)
    next
      case (Some user_entity)
      obtain w st2 where w: "send_message en u m st1 = (w, st2)"
        by (cases "send_message en u m st1")
      note e2 = send_message_effects [OF w]
      have q2: "quiet u st st2" and s2: "same_stats st st2"
        using e1 e2 by (blast intro: quiet_trans same_stats_trans)+
      show ?thesis
      proof (cases w)
        case None
        then have "out = Return (res\<lparr>status := Sent, error := None\<rparr>)"
          and "st' = log (MessageSent u) (st2\<lparr>stats_sent := stats_sent st2 + 1\<rparr>)"
          using a v w Inr Some by (simp_all add: attempt_once_def)
        then show ?thesis
          using q2 s2 by (auto simp: quiet_def attempt_ok_def same_stats_def)
      next
        case (Some e)
        then have "handle_send_error en cfg u attempt res e st2 = (out, st')"
          using a v w Inr \<open>ent = Some user_entity\<close> by (simp add: attempt_once_def)
        from handle_send_error_effects [OF this f] q2 s2 show ?thesis
          by (blast intro: quiet_trans attempt_ok_shift)
      qed
    qed
  qed
qed

lemma retry_ok_shift:
  "same_stats st st1 \<Longrightarrow> user res1 = user res \<Longrightarrow> retry_ok res1 st1 out st' \<Longrightarrow> retry_ok res st out st'"
  by (auto simp: retry_ok_def same_stats_def split: sum.splits)

lemma retry_loop_effects:
  "retry_loop en cfg u m attempt res st = (out, st') \<Longrightarrow> status res = Failed \<Longrightarrow>
     quiet u st st' \<and> retry_ok res st out st'"
proof (induction "nat (max_retries cfg - attempt)" arbitrary: attempt res st)
  case 0
  then have "\<not> attempt < max_retries cfg" by simp
  then show ?case
    using "0.prems" by (subst (asm) retry_loop.simps) (auto simp: retry_ok_def)
next
  case (Suc k)
  then have lt: "attempt < max_retries cfg" by simp
  obtain a st1 where a: "attempt_once en cfg u m attempt res st = (a, st1)"
    by (cases "attempt_once en cfg u m attempt res st")
  note e = attempt_once_effects [OF a Suc.prems(2)]
  show ?case
  proof (cases a)
    case (Return r)
    then have "out = Inr r" "st' = st1"
      using Suc.prems(1) lt a by (subst (asm) retry_loop.simps; simp)+
    then show ?thesis using e Return by (simp add: attempt_ok_def retry_ok_def)
  next
    case (Raise x)
    then have "out = Inl x" "st' = st1"
      using Suc.prems(1) lt a by (subst (asm) retry_loop.simps; simp)+
    then show ?thesis using e Raise by (simp add: attempt_ok_def retry_ok_def)
  next
    case (NextAttempt r)
    then have rl: "retry_loop en cfg u m (attempt + 1) r st1 = (out, st')"
      using Suc.prems(1) lt a by (subst (asm) retry_loop.simps) simp
    have r: "user r = user res" "status r = Failed" "same_stats st st1"
      using e NextAttempt by (simp_all add: attempt_ok_def)
    have k: "k = nat (max_retries cfg - (attempt + 1))" using Suc.hyps(2) by simp
    from Suc.hyps(1) [OF k rl r(2)] e r show ?thesis
      by (blast intro: quiet_trans retry_ok_shift)
  qed
qed

lemma send_message_with_retry_effects:
  assumes "send_message_with_retry en cfg u m st = (out, st')"
  shows "quiet u st st'"
    and "case out of
           Inr r \<Rightarrow> user r = u \<and> stats_sent st' = stats_sent st + (if status r = Sent then 1 else 0)
         | Inl x \<Rightarrow> same_stats st st'"
  using retry_loop_effects [OF assms [unfolded send_message_with_retry_def]]
  by (auto simp: retry_ok_def split: sum.splits)

lemma save_progress_trace':
  "\<exists>l. (l = ProgressSaved \<or> l = ErrorSavingProgress) \<and> trace (save_progress en s f st) =
     trace st @ [SaveProgress s f (stats_sent st) (stats_failed st) (stats_skipped st), Log l]"
  by (simp add: save_progress_def emit_def Let_def split: write_result.splits)

lemma save_progress_saves [simp]:
  "saves (trace (save_progress en s f st)) =
     saves (trace st) @ [(s, f, stats_sent st, stats_failed st, stats_skipped st)]"
  using save_progress_trace [of en s f st] by auto

lemma save_progress_event_users [simp]:
  "event_users (trace (save_progress en s f st)) = event_users (trace st)"
  using save_progress_trace' [of en s f st] by auto

lemma process_user_effects:
  assumes p: "process_user en cfg m n i u sent failed st = (le, sent', failed', st')"
  shows "set (saves (trace st')) \<subseteq>
           insert (sent', failed', stats_sent st', stats_failed st', stats_skipped st')
             (set (saves (trace st)))"
    and "set (event_users (trace st')) \<subseteq> insert u (set (event_users (trace st)))"
    and "(sent', failed') = (sent, failed) \<or> (sent', failed') = (sent @ [u], failed)
         \<or> (\<exists>r. user r = u \<and> (sent', failed') = (sent, failed @ [r]))"
    and "stats_sent st' - int (length sent') = stats_sent st - int (length sent)"
proof -
  obtain out st1 where r: "send_message_with_retry en cfg u m (log (Processing i n u) st) = (out, st1)"
    by (cases "send_message_with_retry en cfg u m (log (Processing i n u) st)")
  note e = send_message_with_retry_effects [OF r]
  have q: "saves (trace st1) = saves (trace st)"
    "set (event_users (trace st1)) \<subseteq> insert u (set (event_users (trace st)))"
    using e(1) by (auto simp: quiet_def)
  have all: "set (saves (trace st')) \<subseteq>
           insert (sent', failed', stats_sent st', stats_failed st', stats_skipped st')
             (set (saves (trace st)))
    \<and> set (event_users (trace st')) \<subseteq> insert u (set (event_users (trace st)))
    \<and> ((sent', failed') = (sent, failed) \<or> (sent', failed') = (sent @ [u], failed)
         \<or> (\<exists>r. user r = u \<and> (sent', failed') = (sent, failed @ [r])))
    \<and> stats_sent st' - int (length sent') = stats_sent st - int (length sent)"
  proof (cases out)
    case (Inl x)
    then show ?thesis
      using p r e(2) q
      by (auto simp: process_user_def handle_user_error_def same_stats_def split: if_splits)
  next
    case (Inr res)
    then show ?thesis
      using p r e(2) q
      by (auto simp: process_user_def handle_user_error_def record_result_def same_stats_def
            print_stats_def sleep_def
            split: if_splits prod.splits option.splits)
  qed
  then show "set (saves (trace st')) \<subseteq>
           insert (sent', failed', stats_sent st', stats_failed st', stats_skipped st')
             (set (saves (trace st)))"
    and "set (event_users (trace st')) \<subseteq> insert u (set (event_users (trace st)))"
    and "(sent', failed') = (sent, failed) \<or> (sent', failed') = (sent @ [u], failed)
         \<or> (\<exists>r. user r = u \<and> (sent', failed') = (sent, failed @ [r]))"
    and "stats_sent st' - int (length sent') = stats_sent st - int (length sent)"
    by blast+
qed

lemma load_progress_effects:
  "counters (snd (load_progress st)) = counters st"
  "\<exists>l. trace (snd (load_progress st)) = trace st @ [Log l] \<and> event_user (Log l) = None"
  by (auto simp: load_progress_def counters_def Let_def split: progress_file.splits)

lemma bulk_loop_invariant:
  assumes step: "\<And>i u us sent failed st le sent' failed' st'.
            \<lbrakk>I (u # us) sent failed (counters st);
             process_user en cfg m n i u sent failed st = (le, sent', failed', st')\<rbrakk>
            \<Longrightarrow> I us sent' failed' (counters st')"
      and save: "\<And>us sent failed c. I us sent failed c \<Longrightarrow> P (sent, failed, c)"
  shows "bulk_loop en cfg m n i us sent failed st = (sent', failed', st') \<Longrightarrow>
         I us sent failed (counters st) \<Longrightarrow>
         \<forall>x\<in>set (saves (trace st)). P x \<Longrightarrow>
         P (sent', failed', counters st') \<and> (\<forall>x\<in>set (saves (trace st')). P x)"
proof (induction us arbitrary: i sent failed st)
  case Nil
  then show ?case using save by auto
next
  case (Cons u us)
  obtain le s1 f1 st1 where p: "process_user en cfg m n i u sent failed st = (le, s1, f1, st1)"
    by (cases "process_user en cfg m n i u sent failed st") auto
  have i1: "I us s1 f1 (counters st1)" by (rule step [OF Cons.prems(2) p])
  have p1: "P (s1, f1, counters st1)" by (rule save [OF i1])
  have sv: "\<forall>x\<in>set (saves (trace st1)). P x"
    using process_user_effects(1) [OF p] Cons.prems(3) p1 by (auto simp: counters_def)
  show ?case
  proof (cases le)
    case Break
    then show ?thesis using Cons.prems(1) p p1 sv by simp
  next
    case Continue
    then have "bulk_loop en cfg m n (Suc i) us s1 f1 st1 = (sent', failed', st')"
      using Cons.prems(1) p by simp
    from Cons.IH [OF this i1 sv] show ?thesis .
  qed
qed

lemma send_bulk_messages_unfold:
  "send_bulk_messages en cfg users m resume st =
     (let users' = working_list resume users st;
          st1 = (if resume then log (Resuming (length users')) (snd (load_progress st)) else st);
          st2 = st1\<lparr>stats_total := int (length users')\<rparr>
      in if users' = [] then (None, log NoUsers st2)
         else (case bulk_loop en cfg m (length users') 1 users'
                      (fst (loaded resume st)) (snd (loaded resume st))
                      (log (RateLimit (message_delay cfg)) (log (Starting (length users')) st2)) of
                 (sent', failed', st3) \<Rightarrow>
                   print_final_stats en (save_progress en sent' failed' st3)))"
proof (cases resume)
  case False
  then show ?thesis
    by (simp add: send_bulk_messages_def working_list_def loaded_def Let_def)
next
  case True
  obtain s f st1 where "load_progress st = ((s, f), st1)"
    by (cases "load_progress st") auto
  then show ?thesis
    using True by (simp add: send_bulk_messages_def working_list_def loaded_def Let_def)
qed

lemma send_bulk_messages_invariant:
  assumes step: "\<And>i u us sent failed st le sent' failed' st'.
            \<lbrakk>I (u # us) sent failed (counters st);
             process_user en cfg m (length (working_list resume users st0)) i u sent failed st
               = (le, sent', failed', st')\<rbrakk>
            \<Longrightarrow> I us sent' failed' (counters st')"
      and save: "\<And>us sent failed c. I us sent failed c \<Longrightarrow> P (sent, failed, c)"
      and init: "I (working_list resume users st0) (fst (loaded resume st0)) (snd (loaded resume st0))
                   (counters st0)"
      and tr: "trace st0 = []"
  shows "\<forall>x\<in>set (saves (trace (snd (send_bulk_messages en cfg users m resume st0)))). P x"
proof -
  let ?users = "working_list resume users st0"
  let ?st1 = "if resume then log (Resuming (length ?users)) (snd (load_progress st0)) else st0"
  let ?st2 = "?st1\<lparr>stats_total := int (length ?users)\<rparr>"
  let ?st3 = "log (RateLimit (message_delay cfg)) (log (Starting (length ?users)) ?st2)"
  have c: "counters ?st3 = counters st0"
    using load_progress_effects(1) [of st0] by (simp add: counters_def)
  have s: "saves (trace ?st3) = []"
    using load_progress_effects(2) [of st0] tr by auto
  show ?thesis
  proof (cases "?users = []")
    case True
    then show ?thesis
      using load_progress_effects(2) [of st0] tr
      by (auto simp: send_bulk_messages_unfold Let_def)
  next
    case False
    obtain s' f' st' where b: "bulk_loop en cfg m (length ?users) 1 ?users
        (fst (loaded resume st0)) (snd (loaded resume st0)) ?st3 = (s', f', st')"
      by (cases "bulk_loop en cfg m (length ?users) 1 ?users
        (fst (loaded resume st0)) (snd (loaded resume st0)) ?st3") auto
    have "P (s', f', counters st') \<and> (\<forall>x\<in>set (saves (trace st')). P x)"
      using bulk_loop_invariant [where I = I and P = P, OF step save b] init c s by simp
    then show ?thesis
      using False b
      by (auto simp: send_bulk_messages_unfold Let_def print_final_stats_def counters_def)
  qed
qed

lemma load_progress_result:
  "fst (load_progress st) =
     (if sent_file st = Unparseable then ([], [])
      else (stored_or_empty (sent_file st),
            if failed_file st = Unparseable then [] else stored_or_empty (failed_file st)))"
  by (simp add: load_progress_def stored_or_empty_def Let_def split: progress_file.splits)

lemma loaded_trace [simp]: "loaded resume (st\<lparr>trace := t\<rparr>) = loaded resume st"
  by (simp add: loaded_def load_progress_result)

lemma working_list_trace [simp]: "working_list resume users (st\<lparr>trace := t\<rparr>) = working_list resume users st"
  by (simp add: working_list_def)

lemma counters_trace [simp]: "counters (st\<lparr>trace := t\<rparr>) = counters st"
  by (simp add: counters_def)

lemma loaded_exclusive:
  assumes "resume \<Longrightarrow> exclusive (stored_or_empty (sent_file st)) (stored_or_empty (failed_file st))"
  shows "exclusive (fst (loaded resume st)) (snd (loaded resume st))"
  using assms by (auto simp: loaded_def load_progress_result exclusive_def)

lemma working_list_fresh:
  "resume \<Longrightarrow> set (working_list resume users st) \<inter>
     (set (fst (loaded resume st)) \<union> set (map user (snd (loaded resume st)))) = {}"
  by (auto simp: working_list_def resume_filter_def)

lemma working_list_distinct: "distinct users \<Longrightarrow> distinct (working_list resume users st)"
  by (simp add: working_list_def resume_filter_def)

lemma bulk_loop_event_users:
  "bulk_loop en cfg m n i us sent failed st = (sent', failed', st') \<Longrightarrow>
     set (event_users (trace st')) \<subseteq> set us \<union> set (event_users (trace st))"
proof (induction us arbitrary: i sent failed st)
  case Nil
  then show ?case by simp
next
  case (Cons u us)
  obtain le s1 f1 st1 where p: "process_user en cfg m n i u sent failed st = (le, s1, f1, st1)"
    by (cases "process_user en cfg m n i u sent failed st") auto
  note e = process_user_effects(2) [OF p]
  show ?case
  proof (cases le)
    case Break
    then show ?thesis using Cons.prems p e by auto
  next
    case Continue
    then have "bulk_loop en cfg m n (Suc i) us s1 f1 st1 = (sent', failed', st')"
      using Cons.prems p by simp
    from Cons.IH [OF this] e show ?thesis by auto
  qed
qed

lemma send_bulk_messages_event_users:
  assumes "trace st = []"
  shows "set (event_users (trace (snd (send_bulk_messages en cfg users m resume st))))
           \<subseteq> set (working_list resume users st)"
proof -
  let ?users = "working_list resume users st"
  let ?st1 = "if resume then log (Resuming (length ?users)) (snd (load_progress st)) else st"
  let ?st2 = "?st1\<lparr>stats_total := int (length ?users)\<rparr>"
  let ?st3 = "log (RateLimit (message_delay cfg)) (log (Starting (length ?users)) ?st2)"
  have s: "event_users (trace ?st2) = []"
    using load_progress_effects(2) [of st] assms by auto
  show ?thesis
  proof (cases "?users = []")
    case True
    then show ?thesis
      using s by (cases resume) (simp_all add: send_bulk_messages_unfold Let_def)
  next
    case False
    obtain s' f' st' where b: "bulk_loop en cfg m (length ?users) 1 ?users
        (fst (loaded resume st)) (snd (loaded resume st)) ?st3 = (s', f', st')"
      by (cases "bulk_loop en cfg m (length ?users) 1 ?users
        (fst (loaded resume st)) (snd (loaded resume st)) ?st3") auto
    have "set (event_users (trace st')) \<subseteq> set ?users"
      using bulk_loop_event_users [OF b] s by (cases resume) simp_all
    then show ?thesis
      using False b
      by (simp add: send_bulk_messages_unfold Let_def print_final_stats_def)
  qed
qed

section \<open>Evaluating concrete runs\<close>

lemmas run_defs = send_bulk_messages_def process_user_def send_message_with_retry_def
  retry_loop.simps attempt_once_def validate_user_def send_message_def sleep_def
  handle_user_error_def record_result_def print_stats_def print_final_stats_def
  save_progress_def load_progress_def resume_filter_def emit_def log_def external_def Let_def
  init_state_def default_config_def ok_env_def flood_env_def

section \<open>Saving, then loading\<close>

text \<open>
  C9.  Round trip: when the two writes of \<open>save_progress\<close> succeed, \<open>load_progress\<close>
  called next returns the sent list and the failed/skipped records that were saved, the
  records in the order they were passed.  (A write that raises is caught and logged at
  lines 97-98; nothing has been saved then, and the claim is about what has been.)
\<close>

theorem save_then_load_round_trip:
  assumes "write_at en (tick st) = Written"
      and "write_at en (Suc (tick st)) = Written"
  shows "fst (load_progress (save_progress en sent_users failed_users st)) = (sent_users, failed_users)"
  using assms
  by (simp add: save_progress_def load_progress_def emit_def log_def Let_def)

theorem save_then_load_round_trip_witness:
  "write_at ok_env (tick init_state) = Written
   \<and> write_at ok_env (Suc (tick init_state)) = Written
   \<and> fst (load_progress (save_progress ok_env [''alice'', ''carol''] [alice_failed] init_state))
       = ([''alice'', ''carol''], [alice_failed])"
proof -
  have h1: "write_at ok_env (tick init_state) = Written" by (simp add: ok_env_def)
  have h2: "write_at ok_env (Suc (tick init_state)) = Written" by (simp add: ok_env_def)
  show ?thesis
    using h1 h2 save_then_load_round_trip [OF h1 h2, of "[''alice'', ''carol'']" "[alice_failed]"]
    by simp
qed

section \<open>The campaign driver: exclusion, resumption, unexpected errors\<close>

text \<open>
  C3, as stated, fails.  First run: the input list names \<open>alice\<close> twice, the first
  delivery succeeds and the second fails on all three attempts; the final save has
  \<open>alice\<close> in the sent list and in a failed record.  Second run: the progress on disk
  already names \<open>alice\<close> on both sides, and a resumed run for \<open>bob\<close> saves both sides
  again.
\<close>

theorem duplicates_break_exclusion:
  "saves (trace (snd (send_bulk_messages dup_env default_config [''alice'', ''alice''] ''hi'' False
                        init_state)))
     = [([''alice''], [alice_failed], 1, 1, 0)]
   \<and> saves (trace (snd (send_bulk_messages ok_env default_config [''bob''] ''hi'' True
                        overlapping_progress)))
     = [([''alice'', ''bob''], [alice_failed], 1, 0, 0)]
   \<and> \<not> exclusive [''alice''] [alice_failed]
   \<and> \<not> exclusive [''alice'', ''bob''] [alice_failed]"
  by (simp add: run_defs dup_env_def alice_failed_def overlapping_progress_def exclusive_def)

text \<open>
  C3, amended.  When the input list has no identifier twice and, for a resumed run, the
  progress on disk is itself exclusive, every call of \<open>save_progress\<close> in the run (each
  checkpoint, the save on interruption and the final save) is given lists in which no
  identifier is both sent and the user of a failed/skipped record.  The two lists only
  grow during a run and the last call receives them as they are at the end, so they are
  exclusive at every point of the run.
\<close>

theorem sent_and_failed_exclusive:
  assumes d: "distinct users"
      and x: "resume \<longrightarrow> exclusive (stored_or_empty (sent_file st)) (stored_or_empty (failed_file st))"
  shows "\<forall>(s, f, c) \<in> set (saves (trace (snd (send_bulk_messages en cfg users m resume (st\<lparr>trace := []\<rparr>))))).
           exclusive s f"
proof -
  define I where "I = (\<lambda>us sent failed (c :: int \<times> int \<times> int).
              distinct us \<and> set us \<inter> (set sent \<union> set (map user failed)) = {} \<and> exclusive sent failed)"
  define P where "P = (\<lambda>(s, f, c :: int \<times> int \<times> int). exclusive s f)"
  have step: "I us sent' failed' (counters st')"
    if "I (u # us) sent failed (counters st0)"
      and "process_user en cfg m n i u sent failed st0 = (le, sent', failed', st')"
    for i u us sent failed st0 le sent' failed' st' n
    using that(1) process_user_effects(3) [OF that(2)]
    unfolding I_def exclusive_def by (elim disjE conjE exE; fastforce)
  have save: "P (sent, failed, c)" if "I us sent failed c" for us sent failed c
    using that by (simp add: I_def P_def)
  have init: "I (working_list resume users (st\<lparr>trace := []\<rparr>))
                (fst (loaded resume (st\<lparr>trace := []\<rparr>))) (snd (loaded resume (st\<lparr>trace := []\<rparr>)))
                (counters (st\<lparr>trace := []\<rparr>))"
  proof (cases resume)
    case True
    then show ?thesis
      using working_list_distinct [OF d] working_list_fresh [of resume users st]
        loaded_exclusive [of resume st] x
      by (simp add: I_def)
  next
    case False
    then show ?thesis
      using d by (simp add: I_def working_list_def loaded_def exclusive_def)
  qed
  have "\<forall>x\<in>set (saves (trace (snd (send_bulk_messages en cfg users m resume (st\<lparr>trace := []\<rparr>))))). P x"
  proof (rule send_bulk_messages_invariant [where I = I and P = P])
    show "trace (st\<lparr>trace := []\<rparr>) = []" by simp
  qed (use step save init in blast)+
  then show ?thesis by (simp add: P_def)
qed

theorem sent_and_failed_exclusive_witness:
  "distinct [''alice'', ''bob'', ''carol'']
   \<and> exclusive (stored_or_empty (sent_file prior_progress)) (stored_or_empty (failed_file prior_progress))
   \<and> list_all (\<lambda>(s, f, c). exclusive s f)
        (saves (trace (snd (send_bulk_messages dup_env default_config [''alice'', ''bob'', ''carol'']
                             ''hi'' True (prior_progress\<lparr>trace := []\<rparr>)))))
   \<and> saves (trace (snd (send_bulk_messages dup_env default_config [''alice'', ''bob'', ''carol'']
                             ''hi'' True (prior_progress\<lparr>trace := []\<rparr>)))) \<noteq> []"
proof -
  let ?run = "saves (trace (snd (send_bulk_messages dup_env default_config
                [''alice'', ''bob'', ''carol''] ''hi'' True (prior_progress\<lparr>trace := []\<rparr>))))"
  have h1: "distinct [''alice'', ''bob'', ''carol'']" by simp
  have h2: "exclusive (stored_or_empty (sent_file prior_progress))
              (stored_or_empty (failed_file prior_progress))"
    by (simp add: prior_progress_def init_state_def stored_or_empty_def exclusive_def)
  have h3: "?run \<noteq> []"
    by (simp add: run_defs dup_env_def prior_progress_def)
  have "\<forall>(s, f, c) \<in> set ?run. exclusive s f"
    using h2 by (intro sent_and_failed_exclusive [OF h1]) blast
  then have "list_all (\<lambda>(s, f, c). exclusive s f) ?run"
    by (simp only: list_all_iff)
  with h1 h2 h3 show ?thesis by blast
qed

text \<open>
  C4.  With \<open>resume = true\<close>, the list the loop iterates over is the input list without
  the identifiers that \<open>load_progress\<close> returned, in the sent list or as the user of a
  failed/skipped record.  Every event of the run that is about a recipient (the
  \<open>Processing\<close> log line that precedes each call of \<open>send_message_with_retry\<close>, every
  \<open>get_entity\<close> and \<open>send_message\<close>, every log line naming a user) is about a member of
  that list, hence about none of the loaded identifiers.
\<close>

theorem resume_never_redelivers:
  "working_list True users st =
     filter (\<lambda>u. u \<notin> set (fst (fst (load_progress st)))
                 \<and> u \<notin> set (map user (snd (fst (load_progress st))))) users
   \<and> set (event_users (trace (snd (send_bulk_messages en cfg users m True (st\<lparr>trace := []\<rparr>)))))
       \<subseteq> set (working_list True users st)
   \<and> set (event_users (trace (snd (send_bulk_messages en cfg users m True (st\<lparr>trace := []\<rparr>)))))
       \<inter> (set (fst (fst (load_progress st))) \<union> set (map user (snd (fst (load_progress st))))) = {}"
proof -
  have a: "working_list True users st =
     filter (\<lambda>u. u \<notin> set (fst (fst (load_progress st)))
                 \<and> u \<notin> set (map user (snd (fst (load_progress st))))) users"
    by (simp add: working_list_def resume_filter_def loaded_def)
  have b: "set (event_users (trace (snd (send_bulk_messages en cfg users m True (st\<lparr>trace := []\<rparr>)))))
       \<subseteq> set (working_list True users st)"
    using send_bulk_messages_event_users [of "st\<lparr>trace := []\<rparr>" en cfg users m True] by simp
  have c: "set (working_list True users st)
       \<inter> (set (fst (fst (load_progress st))) \<union> set (map user (snd (fst (load_progress st))))) = {}"
    using working_list_fresh [of True users st] by (simp add: loaded_def)
  from a b c show ?thesis by blast
qed

theorem resume_never_redelivers_witness:
  "fst (load_progress prior_progress) = ([''alice''], [\<lparr>user = ''bob'', status = Skipped,
       error = Some ''Privacy settings prevent messaging'', timestamp = ''2023-12-31T23:00:00''\<rparr>])
   \<and> working_list True [''alice'', ''bob'', ''carol''] prior_progress = [''carol'']
   \<and> set (event_users (trace (snd (send_bulk_messages ok_env default_config
              [''alice'', ''bob'', ''carol''] ''hi'' True (prior_progress\<lparr>trace := []\<rparr>)))))
       \<subseteq> {''carol''}"
proof -
  have h1: "fst (load_progress prior_progress) = ([''alice''], [\<lparr>user = ''bob'', status = Skipped,
       error = Some ''Privacy settings prevent messaging'', timestamp = ''2023-12-31T23:00:00''\<rparr>])"
    by (simp add: load_progress_def prior_progress_def init_state_def Let_def)
  have h2: "working_list True [''alice'', ''bob'', ''carol''] prior_progress = [''carol'']"
    by (simp add: working_list_def loaded_def resume_filter_def h1)
  have "set (event_users (trace (snd (send_bulk_messages ok_env default_config
              [''alice'', ''bob'', ''carol''] ''hi'' True (prior_progress\<lparr>trace := []\<rparr>)))))
       \<subseteq> set (working_list True [''alice'', ''bob'', ''carol''] prior_progress)"
    using resume_never_redelivers [of "[''alice'', ''bob'', ''carol'']" prior_progress ok_env
        default_config "''hi''"]
    by blast
  then have "set (event_users (trace (snd (send_bulk_messages ok_env default_config
              [''alice'', ''bob'', ''carol''] ''hi'' True (prior_progress\<lparr>trace := []\<rparr>)))))
       \<subseteq> {''carol''}"
    by (simp only: h2 list.set)
  with h1 h2 show ?thesis by blast
qed

text \<open>
  C10, as stated, fails.  Ten deliveries succeed and every \<open>print\<close> raises.  In the tenth
  iteration the outcome is recorded and the checkpoint is written before \<open>print_stats\<close>
  raises; the exception reaches the per-recipient handler, which logs it, with the
  outcome of recipient 10 recorded and the checkpoint of that iteration done.  (The last
  three events are the final save; the exception of \<open>print_final_stats\<close>, outside every
  \<open>try\<close>, leaves \<open>send_bulk_messages\<close>.)
\<close>

theorem report_failure_after_checkpoint:
  "drop 56 (trace (snd (send_bulk_messages print_fail_env default_config ten_users ''hi'' False
                          init_state)))
     = [Log (Processing 10 10 ''u10''), GetEntity ''u10'', SendMessage ''u10'' ''hi'',
        Log (MessageSent ''u10''), SaveProgress ten_users [] 10 0 0, Log ProgressSaved,
        PrintStats 10 10, Log (UnexpectedError ''u10'' (OtherError ''broken pipe'')),
        SaveProgress ten_users [] 10 0 0, Log ProgressSaved, PrintFinalStats]
   \<and> ''u10'' \<in> set ten_users"
  by (simp add: run_defs print_fail_env_def ten_users_def)

text \<open>
  C10, amended.  When the unexpected exception comes out of \<open>send_message_with_retry\<close>
  (any exception but \<open>KeyboardInterrupt\<close>), the iteration ends with both lists as they
  were, the state is the one \<open>send_message_with_retry\<close> left plus the handler's log line
  (no checkpoint, no delay), and the loop goes on with recipient \<open>i + 1\<close>.
\<close>

theorem unexpected_error_in_delivery_moves_on:
  assumes "send_message_with_retry en cfg u m (log (Processing i n u) st) = (Inl e, st1)"
      and "e \<noteq> KeyboardInterrupt"
  shows "process_user en cfg m n i u sent failed st =
           (Continue, sent, failed, log (UnexpectedError u e) st1)
       \<and> bulk_loop en cfg m n i (u # us) sent failed st =
           bulk_loop en cfg m n (Suc i) us sent failed (log (UnexpectedError u e) st1)"
  using assms by (simp add: process_user_def handle_user_error_def)

theorem unexpected_error_in_delivery_moves_on_witness:
  "send_message_with_retry sleep_fail_env default_config ''alice'' ''hi''
       (log (Processing 1 2 ''alice'') init_state)
     = (Inl (OtherError ''event loop is closed''),
        init_state\<lparr>tick := 3, trace := [Log (Processing 1 2 ''alice''), GetEntity ''alice'',
          SendMessage ''alice'' ''hi'', Log (RateLimitHit 7), Sleep 7]\<rparr>)
   \<and> OtherError ''event loop is closed'' \<noteq> KeyboardInterrupt
   \<and> process_user sleep_fail_env default_config ''hi'' 2 1 ''alice'' [] [] init_state
     = (Continue, [], [],
        init_state\<lparr>tick := 3, trace := [Log (Processing 1 2 ''alice''), GetEntity ''alice'',
          SendMessage ''alice'' ''hi'', Log (RateLimitHit 7), Sleep 7,
          Log (UnexpectedError ''alice'' (OtherError ''event loop is closed''))]\<rparr>)"
proof -
  let ?st1 = "init_state\<lparr>tick := 3, trace := [Log (Processing 1 2 ''alice''), GetEntity ''alice'',
          SendMessage ''alice'' ''hi'', Log (RateLimitHit 7), Sleep 7]\<rparr>"
  have h1: "send_message_with_retry sleep_fail_env default_config ''alice'' ''hi''
       (log (Processing 1 2 ''alice'') init_state)
     = (Inl (OtherError ''event loop is closed''), ?st1)"
    by (simp add: run_defs sleep_fail_env_def)
  have h2: "OtherError ''event loop is closed'' \<noteq> KeyboardInterrupt" by simp
  have h3: "log (UnexpectedError ''alice'' (OtherError ''event loop is closed'')) ?st1
     = init_state\<lparr>tick := 3, trace := [Log (Processing 1 2 ''alice''), GetEntity ''alice'',
          SendMessage ''alice'' ''hi'', Log (RateLimitHit 7), Sleep 7,
          Log (UnexpectedError ''alice'' (OtherError ''event loop is closed''))]\<rparr>"
    by (simp add: log_def emit_def init_state_def)
  have "process_user sleep_fail_env default_config ''hi'' 2 1 ''alice'' [] [] init_state
     = (Continue, [], [], log (UnexpectedError ''alice'' (OtherError ''event loop is closed'')) ?st1)"
    using unexpected_error_in_delivery_moves_on [OF h1 h2, of "[]" "[]" "[]"] by blast
  then have "process_user sleep_fail_env default_config ''hi'' 2 1 ''alice'' [] [] init_state
     = (Continue, [], [],
        init_state\<lparr>tick := 3, trace := [Log (Processing 1 2 ''alice''), GetEntity ''alice'',
          SendMessage ''alice'' ''hi'', Log (RateLimitHit 7), Sleep 7,
          Log (UnexpectedError ''alice'' (OtherError ''event loop is closed''))]\<rparr>)"
    by (simp only: h3)
  with h1 h2 show ?thesis by blast
qed

section \<open>Runs in which every delivery succeeds\<close>

lemma milestones_append [simp]: "milestones (xs @ ys) = milestones xs @ milestones ys"
  by (simp add: milestones_def)

lemma milestones_simps [simp]:
  "milestones [] = []"
  "milestones (e # es) = (if is_milestone e then e # milestones es else milestones es)"
  by (simp_all add: milestones_def)

lemma save_progress_milestones [simp]:
  "milestones (trace (save_progress en s f st)) =
     milestones (trace st) @ [SaveProgress s f (stats_sent st) (stats_failed st) (stats_skipped st)]"
  using save_progress_trace' [of en s f st] by auto

lemma saves_milestones [simp]: "saves (milestones es) = saves es"
  by (induction es rule: saves.induct) simp_all

lemma saves_sends [simp]: "saves (map (\<lambda>u. SendMessage u m) us) = []"
  by (induction us) simp_all

lemma send_message_with_retry_sent:
  assumes "0 < max_retries cfg"
      and "get_entity_at en (tick st) u = Inr UserEntity"
      and "send_message_at en (Suc (tick st)) u = None"
  shows "send_message_with_retry en cfg u m st =
           (Inr \<lparr>user = u, status = Sent, error = None, timestamp = now_at en (tick st)\<rparr>,
            log (MessageSent u)
              ((external (SendMessage u m) (external (GetEntity u) st))
                 \<lparr>stats_sent := stats_sent st + 1\<rparr>))"
  using assms
  by (subst send_message_with_retry_def, subst retry_loop.simps)
     (simp add: attempt_once_def validate_user_def send_message_def)

lemma process_user_sent:
  assumes "0 < max_retries cfg"
      and "\<forall>t v. get_entity_at en t v = Inr UserEntity"
      and "\<forall>t v. send_message_at en t v = None"
      and "\<forall>t. sleep_at en t = None"
      and "\<forall>t. print_at en t = None"
  shows "\<exists>st'. process_user en cfg m n i u sent failed st = (Continue, sent @ [u], failed, st')
           \<and> milestones (trace st') =
               milestones (trace st) @ SendMessage u m
                 # (if i mod 10 = 0
                    then [SaveProgress (sent @ [u]) failed (stats_sent st + 1) (stats_failed st)
                            (stats_skipped st)]
                    else [])
           \<and> stats_sent st' = stats_sent st + 1
           \<and> stats_failed st' = stats_failed st \<and> stats_skipped st' = stats_skipped st"
proof -
  have r: "send_message_with_retry en cfg u m (log (Processing i n u) st) =
           (Inr \<lparr>user = u, status = Sent, error = None, timestamp = now_at en (tick st)\<rparr>,
            log (MessageSent u)
              ((external (SendMessage u m) (external (GetEntity u) (log (Processing i n u) st)))
                 \<lparr>stats_sent := stats_sent st + 1\<rparr>))"
    using assms(1-3) send_message_with_retry_sent [of cfg en "log (Processing i n u) st" u m]
    by simp
  show ?thesis
    using assms(4,5)
    by (simp add: process_user_def r record_result_def print_stats_def sleep_def)
qed

lemma bulk_loop_sent:
  assumes "0 < max_retries cfg"
      and "\<forall>t v. get_entity_at en t v = Inr UserEntity"
      and "\<forall>t v. send_message_at en t v = None"
      and "\<forall>t. sleep_at en t = None"
      and "\<forall>t. print_at en t = None"
  shows "\<exists>st'. bulk_loop en cfg m n i us sent failed st = (sent @ us, failed, st')
           \<and> milestones (trace st') =
               milestones (trace st)
               @ all_sent_milestones m i us sent failed (stats_sent st) (stats_failed st)
                   (stats_skipped st)
           \<and> stats_sent st' = stats_sent st + int (length us)
           \<and> stats_failed st' = stats_failed st \<and> stats_skipped st' = stats_skipped st"
proof (induction us arbitrary: i sent st)
  case Nil
  then show ?case by simp
next
  case (Cons u us)
  from process_user_sent [OF assms, of m n i u sent failed st]
  obtain st1 where p: "process_user en cfg m n i u sent failed st = (Continue, sent @ [u], failed, st1)"
    and m1: "milestones (trace st1) =
               milestones (trace st) @ SendMessage u m
                 # (if i mod 10 = 0
                    then [SaveProgress (sent @ [u]) failed (stats_sent st + 1) (stats_failed st)
                            (stats_skipped st)]
                    else [])"
    and c1: "stats_sent st1 = stats_sent st + 1" "stats_failed st1 = stats_failed st"
      "stats_skipped st1 = stats_skipped st"
    by blast
  from Cons.IH [of "Suc i" "sent @ [u]" st1]
  obtain st' where b: "bulk_loop en cfg m n (Suc i) us (sent @ [u]) failed st1
                         = ((sent @ [u]) @ us, failed, st')"
    and m2: "milestones (trace st') =
               milestones (trace st1)
               @ all_sent_milestones m (Suc i) us (sent @ [u]) failed (stats_sent st1)
                   (stats_failed st1) (stats_skipped st1)"
    and c2: "stats_sent st' = stats_sent st1 + int (length us)"
      "stats_failed st' = stats_failed st1" "stats_skipped st' = stats_skipped st1"
    by blast
  show ?case
    using p b m1 m2 c1 c2 by simp
qed

lemma list_of_length_25:
  assumes "length (users :: 'a list) = 25"
  obtains u1 u2 u3 u4 u5 u6 u7 u8 u9 u10 u11 u12 u13 u14 u15 u16 u17 u18 u19 u20 u21 u22 u23 u24 u25 where "users = [u1, u2, u3, u4, u5, u6, u7, u8, u9, u10, u11, u12, u13, u14, u15, u16, u17, u18, u19, u20, u21, u22, u23, u24, u25]"
proof -
  from assms have "\<exists>u1 u2 u3 u4 u5 u6 u7 u8 u9 u10 u11 u12 u13 u14 u15 u16 u17 u18 u19 u20 u21 u22 u23 u24 u25. users = [u1, u2, u3, u4, u5, u6, u7, u8, u9, u10, u11, u12, u13, u14, u15, u16, u17, u18, u19, u20, u21, u22, u23, u24, u25]"
    by (auto simp: eval_nat_numeral length_Suc_conv)
  then show ?thesis by (elim exE) (rule that)
qed

lemma save_progress_written:
  assumes "\<forall>t. write_at en t = Written"
  shows "sent_file (save_progress en s f st) = Stored s"
    and "failed_file (save_progress en s f st) = Stored f"
  using assms by (simp_all add: save_progress_def emit_def Let_def)

lemma process_user_sent_files:
  assumes "0 < max_retries cfg"
      and "\<forall>t v. get_entity_at en t v = Inr UserEntity"
      and "\<forall>t v. send_message_at en t v = None"
      and "\<forall>t. sleep_at en t = None"
      and "\<forall>t. print_at en t = None"
      and "\<forall>t. write_at en t = Written"
  shows "sent_file (snd (snd (snd (process_user en cfg m n i u sent failed st)))) =
           (if i mod 10 = 0 then Stored (sent @ [u]) else sent_file st)"
    and "failed_file (snd (snd (snd (process_user en cfg m n i u sent failed st)))) =
           (if i mod 10 = 0 then Stored failed else failed_file st)"
proof -
  have r: "send_message_with_retry en cfg u m (log (Processing i n u) st) =
           (Inr \<lparr>user = u, status = Sent, error = None, timestamp = now_at en (tick st)\<rparr>,
            log (MessageSent u)
              ((external (SendMessage u m) (external (GetEntity u) (log (Processing i n u) st)))
                 \<lparr>stats_sent := stats_sent st + 1\<rparr>))"
    using assms(1-3) send_message_with_retry_sent [of cfg en "log (Processing i n u) st" u m]
    by simp
  show "sent_file (snd (snd (snd (process_user en cfg m n i u sent failed st)))) =
           (if i mod 10 = 0 then Stored (sent @ [u]) else sent_file st)"
    using assms(4-6)
    by (simp add: process_user_def r record_result_def print_stats_def sleep_def
          save_progress_written)
  show "failed_file (snd (snd (snd (process_user en cfg m n i u sent failed st)))) =
           (if i mod 10 = 0 then Stored failed else failed_file st)"
    using assms(4-6)
    by (simp add: process_user_def r record_result_def print_stats_def sleep_def
          save_progress_written)
qed

lemma bulk_loop_split:
  assumes "0 < max_retries cfg"
      and "\<forall>t v. get_entity_at en t v = Inr UserEntity"
      and "\<forall>t v. send_message_at en t v = None"
      and "\<forall>t. sleep_at en t = None"
      and "\<forall>t. print_at en t = None"
  shows "bulk_loop en cfg m n i (xs @ ys) sent failed st =
           bulk_loop en cfg m n (i + length xs) ys (sent @ xs) failed
             (snd (snd (bulk_loop en cfg m n i xs sent failed st)))"
proof (induction xs arbitrary: i sent st)
  case Nil
  then show ?case by simp
next
  case (Cons x xs)
  from process_user_sent [OF assms, of m n i x sent failed st]
  obtain st1 where p: "process_user en cfg m n i x sent failed st = (Continue, sent @ [x], failed, st1)"
    by blast
  show ?case
    using p Cons.IH [of "Suc i" "sent @ [x]" st1] by simp
qed

lemma bulk_loop_snoc_files:
  assumes "0 < max_retries cfg"
      and "\<forall>t v. get_entity_at en t v = Inr UserEntity"
      and "\<forall>t v. send_message_at en t v = None"
      and "\<forall>t. sleep_at en t = None"
      and "\<forall>t. print_at en t = None"
      and "\<forall>t. write_at en t = Written"
  shows "sent_file (snd (snd (bulk_loop en cfg m n i (xs @ [x]) sent failed st))) =
           (if (i + length xs) mod 10 = 0 then Stored (sent @ xs @ [x])
            else sent_file (snd (snd (bulk_loop en cfg m n i xs sent failed st))))"
    and "failed_file (snd (snd (bulk_loop en cfg m n i (xs @ [x]) sent failed st))) =
           (if (i + length xs) mod 10 = 0 then Stored failed
            else failed_file (snd (snd (bulk_loop en cfg m n i xs sent failed st))))"
proof -
  let ?st1 = "snd (snd (bulk_loop en cfg m n i xs sent failed st))"
  have s: "bulk_loop en cfg m n i (xs @ [x]) sent failed st =
           bulk_loop en cfg m n (i + length xs) [x] (sent @ xs) failed ?st1"
    by (rule bulk_loop_split [OF assms(1-5)])
  from process_user_sent [OF assms(1-5), of m n "i + length xs" x "sent @ xs" failed ?st1]
  obtain st2 where p: "process_user en cfg m n (i + length xs) x (sent @ xs) failed ?st1
                         = (Continue, (sent @ xs) @ [x], failed, st2)"
    by blast
  have e: "snd (snd (bulk_loop en cfg m n i (xs @ [x]) sent failed st)) =
           snd (snd (snd (process_user en cfg m n (i + length xs) x (sent @ xs) failed ?st1)))"
    using s p by simp
  show "sent_file (snd (snd (bulk_loop en cfg m n i (xs @ [x]) sent failed st))) =
           (if (i + length xs) mod 10 = 0 then Stored (sent @ xs @ [x])
            else sent_file (snd (snd (bulk_loop en cfg m n i xs sent failed st))))"
    unfolding e using process_user_sent_files(1) [OF assms, of m n "i + length xs" x "sent @ xs" failed ?st1]
    by simp
  show "failed_file (snd (snd (bulk_loop en cfg m n i (xs @ [x]) sent failed st))) =
           (if (i + length xs) mod 10 = 0 then Stored failed
            else failed_file (snd (snd (bulk_loop en cfg m n i xs sent failed st))))"
    unfolding e using process_user_sent_files(2) [OF assms, of m n "i + length xs" x "sent @ xs" failed ?st1]
    by simp
qed

lemma state_after_files:
  assumes "0 < max_retries cfg"
      and "\<forall>t v. get_entity_at en t v = Inr UserEntity"
      and "\<forall>t v. send_message_at en t v = None"
      and "\<forall>t. sleep_at en t = None"
      and "\<forall>t. print_at en t = None"
      and "\<forall>t. write_at en t = Written"
  shows "k \<le> length users \<Longrightarrow>
         sent_file (state_after en cfg m users k st) =
           (if k < 10 then sent_file st else Stored (take (10 * (k div 10)) users))
         \<and> failed_file (state_after en cfg m users k st) =
           (if k < 10 then failed_file st else Stored [])"
proof (induction k)
  case 0
  then show ?case by (simp add: state_after_def loop_start_def)
next
  case (Suc k)
  then have lt: "k < length users" and ih:
    "sent_file (state_after en cfg m users k st) =
           (if k < 10 then sent_file st else Stored (take (10 * (k div 10)) users))"
    "failed_file (state_after en cfg m users k st) =
           (if k < 10 then failed_file st else Stored [])"
    by simp_all
  let ?start = "loop_start cfg (length users) st"
  have t: "take (Suc k) users = take k users @ [users ! k]"
    using lt by (rule take_Suc_conv_app_nth)
  have mn: "min (length users) k = k" using lt by simp
  note f = bulk_loop_snoc_files [OF assms, of m "length users" 1 "take k users" "users ! k" "[]" "[]" ?start]
  have f1: "sent_file (state_after en cfg m users (Suc k) st) =
              (if Suc k mod 10 = 0 then Stored (take (Suc k) users)
               else sent_file (state_after en cfg m users k st))"
    using f(1) by (simp add: state_after_def t mn)
  have f2: "failed_file (state_after en cfg m users (Suc k) st) =
              (if Suc k mod 10 = 0 then Stored []
               else failed_file (state_after en cfg m users k st))"
    using f(2) by (simp add: state_after_def t mn)
  show ?case
  proof (cases "Suc k mod 10 = 0")
    case True
    then have d: "10 * (Suc k div 10) = Suc k" "\<not> Suc k < 10" by presburger+
    show ?thesis
      unfolding f1 f2 using True d by (simp only: if_True if_False simp_thms)
  next
    case False
    then have d: "Suc k div 10 = k div 10" "Suc k < 10 \<longleftrightarrow> k < 10" by presburger+
    show ?thesis
      unfolding f1 f2 ih d using False by (simp only: if_True if_False simp_thms)
  qed
qed

lemma milestones_of_25_recipients:
  assumes "length users = 25"
      and "0 < max_retries cfg"
      and "\<forall>t v. get_entity_at en t v = Inr UserEntity"
      and "\<forall>t v. send_message_at en t v = None"
      and "\<forall>t. sleep_at en t = None"
      and "\<forall>t. print_at en t = None"
  shows "milestones (trace (snd (send_bulk_messages en cfg users m False (st\<lparr>trace := []\<rparr>)))) =
           map (\<lambda>u. SendMessage u m) (take 10 users)
           @ [SaveProgress (take 10 users) [] (stats_sent st + 10) (stats_failed st) (stats_skipped st)]
           @ map (\<lambda>u. SendMessage u m) (take 10 (drop 10 users))
           @ [SaveProgress (take 20 users) [] (stats_sent st + 20) (stats_failed st) (stats_skipped st)]
           @ map (\<lambda>u. SendMessage u m) (drop 20 users)
           @ [SaveProgress users [] (stats_sent st + 25) (stats_failed st) (stats_skipped st)]
       \<and> map (\<lambda>(s, f, c). length s)
           (saves (trace (snd (send_bulk_messages en cfg users m False (st\<lparr>trace := []\<rparr>)))))
         = [10, 20, 25]"
proof -
  let ?st0 = "log (RateLimit (message_delay cfg)) (log (Starting (length users))
                ((st\<lparr>trace := []\<rparr>)\<lparr>stats_total := int (length users)\<rparr>))"
  let ?run = "trace (snd (send_bulk_messages en cfg users m False (st\<lparr>trace := []\<rparr>)))"
  from bulk_loop_sent [OF assms(2-6), of m "length users" 1 users "[]" "[]" ?st0]
  obtain st' where b: "bulk_loop en cfg m (length users) 1 users [] [] ?st0 = (users, [], st')"
    and ms: "milestones (trace st') =
               all_sent_milestones m 1 users [] [] (stats_sent st) (stats_failed st) (stats_skipped st)"
    and c: "stats_sent st' = stats_sent st + int (length users)"
      "stats_failed st' = stats_failed st" "stats_skipped st' = stats_skipped st"
    by auto
  have ne: "users \<noteq> []" using assms(1) by auto
  have run: "milestones ?run =
               all_sent_milestones m 1 users [] [] (stats_sent st) (stats_failed st) (stats_skipped st)
               @ [SaveProgress users [] (stats_sent st + 25) (stats_failed st) (stats_skipped st)]"
    using ne b ms c assms(1)
    by (simp add: send_bulk_messages_def print_final_stats_def)
  obtain u1 u2 u3 u4 u5 u6 u7 u8 u9 u10 u11 u12 u13 u14 u15 u16 u17 u18 u19 u20 u21 u22 u23 u24 u25 where us: "users = [u1, u2, u3, u4, u5, u6, u7, u8, u9, u10, u11, u12, u13, u14, u15, u16, u17, u18, u19, u20, u21, u22, u23, u24, u25]"
    using assms(1) by (rule list_of_length_25)
  have first: "milestones ?run =
           map (\<lambda>u. SendMessage u m) (take 10 users)
           @ [SaveProgress (take 10 users) [] (stats_sent st + 10) (stats_failed st) (stats_skipped st)]
           @ map (\<lambda>u. SendMessage u m) (take 10 (drop 10 users))
           @ [SaveProgress (take 20 users) [] (stats_sent st + 20) (stats_failed st) (stats_skipped st)]
           @ map (\<lambda>u. SendMessage u m) (drop 20 users)
           @ [SaveProgress users [] (stats_sent st + 25) (stats_failed st) (stats_skipped st)]"
    unfolding run unfolding us by simp
  have "saves ?run = saves (milestones ?run)" by simp
  also have "\<dots> = [(take 10 users, [], stats_sent st + 10, stats_failed st, stats_skipped st),
                   (take 20 users, [], stats_sent st + 20, stats_failed st, stats_skipped st),
                   (users, [], stats_sent st + 25, stats_failed st, stats_skipped st)]"
    unfolding first by simp
  finally have "map (\<lambda>(s, f, c). length s) (saves ?run) = [10, 20, 25]"
    using assms(1) by simp
  with first show ?thesis by blast
qed

text \<open>
  C7.  The input list has exactly 25 identifiers, \<open>resume\<close> is false and every delivery
  succeeds at the first attempt (every identifier resolves, every send returns, and the
  sleeps and progress reports return normally).  Then:

  \<^item> the deliveries and the calls of \<open>save_progress\<close> of the run are, in order, the
    first ten deliveries, a save of the first ten identifiers, the next ten deliveries,
    a save of the first twenty, the last five deliveries, and the final save of all 25:
    exactly three saves, given sent lists of 10, 20 and 25 entries;
  \<^item> the loop of the run passes through the states \<open>state_after k\<close>: from each of them
    it goes on with recipient \<open>k + 1\<close>, the first \<open>k\<close> identifiers sent, and the run ends
    with the final save made in \<open>state_after 25\<close>;
  \<^item> when the file writes succeed, the sent file on disk is as it was before the run
    until recipient 10 has been processed, holds the first ten identifiers from then
    until recipient 20 has been processed and the first twenty from then on, the
    failed/skipped file holds the empty list from recipient 10 on, and after the run the
    two files hold all 25 identifiers and the empty list.
\<close>

theorem checkpoints_of_25_recipients:
  assumes "length users = 25"
      and "0 < max_retries cfg"
      and "\<forall>t v. get_entity_at en t v = Inr UserEntity"
      and "\<forall>t v. send_message_at en t v = None"
      and "\<forall>t. sleep_at en t = None"
      and "\<forall>t. print_at en t = None"
  shows "milestones (trace (snd (send_bulk_messages en cfg users m False (st\<lparr>trace := []\<rparr>)))) =
           map (\<lambda>u. SendMessage u m) (take 10 users)
           @ [SaveProgress (take 10 users) [] (stats_sent st + 10) (stats_failed st) (stats_skipped st)]
           @ map (\<lambda>u. SendMessage u m) (take 10 (drop 10 users))
           @ [SaveProgress (take 20 users) [] (stats_sent st + 20) (stats_failed st) (stats_skipped st)]
           @ map (\<lambda>u. SendMessage u m) (drop 20 users)
           @ [SaveProgress users [] (stats_sent st + 25) (stats_failed st) (stats_skipped st)]
       \<and> map (\<lambda>(s, f, c). length s)
           (saves (trace (snd (send_bulk_messages en cfg users m False (st\<lparr>trace := []\<rparr>)))))
         = [10, 20, 25]
       \<and> send_bulk_messages en cfg users m False (st\<lparr>trace := []\<rparr>) =
           print_final_stats en
             (save_progress en users [] (state_after en cfg m users 25 (st\<lparr>trace := []\<rparr>)))
       \<and> (\<forall>k\<le>25. state_after en cfg m users 25 (st\<lparr>trace := []\<rparr>) =
             snd (snd (bulk_loop en cfg m 25 (Suc k) (drop k users) (take k users) []
                         (state_after en cfg m users k (st\<lparr>trace := []\<rparr>)))))
       \<and> ((\<forall>t. write_at en t = Written) \<longrightarrow>
            (\<forall>k\<le>25.
               sent_file (state_after en cfg m users k (st\<lparr>trace := []\<rparr>)) =
                 (if k < 10 then sent_file st
                  else if k < 20 then Stored (take 10 users) else Stored (take 20 users))
               \<and> failed_file (state_after en cfg m users k (st\<lparr>trace := []\<rparr>)) =
                 (if k < 10 then failed_file st else Stored []))
            \<and> sent_file (snd (send_bulk_messages en cfg users m False (st\<lparr>trace := []\<rparr>)))
                = Stored users
            \<and> failed_file (snd (send_bulk_messages en cfg users m False (st\<lparr>trace := []\<rparr>)))
                = Stored [])"
proof -
  let ?ini = "st\<lparr>trace := []\<rparr>"
  let ?start = "loop_start cfg (length users) ?ini"
  note ok = assms(2-6)
  have c12: "milestones (trace (snd (send_bulk_messages en cfg users m False ?ini))) =
           map (\<lambda>u. SendMessage u m) (take 10 users)
           @ [SaveProgress (take 10 users) [] (stats_sent st + 10) (stats_failed st) (stats_skipped st)]
           @ map (\<lambda>u. SendMessage u m) (take 10 (drop 10 users))
           @ [SaveProgress (take 20 users) [] (stats_sent st + 20) (stats_failed st) (stats_skipped st)]
           @ map (\<lambda>u. SendMessage u m) (drop 20 users)
           @ [SaveProgress users [] (stats_sent st + 25) (stats_failed st) (stats_skipped st)]
       \<and> map (\<lambda>(s, f, c). length s)
           (saves (trace (snd (send_bulk_messages en cfg users m False ?ini))))
         = [10, 20, 25]"
    by (rule milestones_of_25_recipients [OF assms])
  from bulk_loop_sent [OF ok, of m "length users" 1 users "[]" "[]" ?start]
  obtain st' where b: "bulk_loop en cfg m (length users) 1 users [] [] ?start = (users, [], st')"
    by auto
  have ne: "users \<noteq> []" using assms(1) by auto
  have a25: "state_after en cfg m users 25 ?ini = st'"
    using b assms(1) by (simp add: state_after_def)
  have c3: "send_bulk_messages en cfg users m False ?ini =
              print_final_stats en (save_progress en users [] (state_after en cfg m users 25 ?ini))"
    unfolding a25 using ne b by (simp add: send_bulk_messages_def loop_start_def)
  have c4: "state_after en cfg m users 25 ?ini =
             snd (snd (bulk_loop en cfg m 25 (Suc k) (drop k users) (take k users) []
                         (state_after en cfg m users k ?ini)))" if "k \<le> 25" for k
  proof -
    have "bulk_loop en cfg m (length users) 1 (take k users @ drop k users) [] [] ?start =
            bulk_loop en cfg m (length users) (1 + length (take k users)) (drop k users)
              ([] @ take k users) []
              (snd (snd (bulk_loop en cfg m (length users) 1 (take k users) [] [] ?start)))"
      by (rule bulk_loop_split [OF ok])
    then show ?thesis
      using that assms(1) b by (simp add: state_after_def a25 [symmetric] min_def)
  qed
  have c5: "sent_file (state_after en cfg m users k ?ini) =
                 (if k < 10 then sent_file st
                  else if k < 20 then Stored (take 10 users) else Stored (take 20 users))
               \<and> failed_file (state_after en cfg m users k ?ini) =
                 (if k < 10 then failed_file st else Stored [])"
    if w: "\<forall>t. write_at en t = Written" and k: "k \<le> 25" for k
  proof -
    have kl: "k \<le> length users" using k assms(1) by simp
    have d: "k < 10 \<or> (\<not> k < 10 \<and> k < 20 \<and> k div 10 = 1) \<or> (\<not> k < 20 \<and> k div 10 = 2)"
      using k by presburger
    from state_after_files [OF ok w kl, of m ?ini] d show ?thesis
      by auto
  qed
  have c6: "sent_file (snd (send_bulk_messages en cfg users m False ?ini)) = Stored users
            \<and> failed_file (snd (send_bulk_messages en cfg users m False ?ini)) = Stored []"
    if w: "\<forall>t. write_at en t = Written"
    unfolding c3 using save_progress_written [OF w]
    by (simp add: print_final_stats_def)
  from c12 c3 c4 c5 c6 show ?thesis by blast
qed

theorem checkpoints_of_25_recipients_witness:
  "length twenty_five_users = 25
   \<and> 0 < max_retries default_config
   \<and> (\<forall>t v. get_entity_at ok_env t v = Inr UserEntity)
   \<and> (\<forall>t v. send_message_at ok_env t v = None)
   \<and> (\<forall>t. sleep_at ok_env t = None)
   \<and> (\<forall>t. print_at ok_env t = None)
   \<and> (\<forall>t. write_at ok_env t = Written)
   \<and> map (\<lambda>(s, f, c). length s)
        (saves (trace (snd (send_bulk_messages ok_env default_config
           twenty_five_users ''hi'' False
           (init_state\<lparr>trace := []\<rparr>)))))
      = [10, 20, 25]
   \<and> sent_file (state_after ok_env default_config ''hi'' twenty_five_users 10 (init_state\<lparr>trace := []\<rparr>))
      = Stored (take 10 twenty_five_users)
   \<and> sent_file (state_after ok_env default_config ''hi'' twenty_five_users 20 (init_state\<lparr>trace := []\<rparr>))
      = Stored (take 20 twenty_five_users)
   \<and> sent_file (snd (send_bulk_messages ok_env default_config twenty_five_users ''hi'' False
                        (init_state\<lparr>trace := []\<rparr>)))
      = Stored twenty_five_users
   \<and> failed_file (snd (send_bulk_messages ok_env default_config twenty_five_users ''hi'' False
                        (init_state\<lparr>trace := []\<rparr>)))
      = Stored []"
proof -
  have h1: "length twenty_five_users = 25" by (simp add: twenty_five_users_def)
  have h2: "0 < max_retries default_config" by (simp add: default_config_def)
  have h3: "\<forall>t v. get_entity_at ok_env t v = Inr UserEntity" by (simp add: ok_env_def)
  have h4: "\<forall>t v. send_message_at ok_env t v = None" by (simp add: ok_env_def)
  have h5: "\<forall>t. sleep_at ok_env t = None" by (simp add: ok_env_def)
  have h6: "\<forall>t. print_at ok_env t = None" by (simp add: ok_env_def)
  have h7: "\<forall>t. write_at ok_env t = Written" by (simp add: ok_env_def)
  note t = checkpoints_of_25_recipients [OF h1 h2 h3 h4 h5 h6, of "''hi''" init_state]
  have a: "map (\<lambda>(s, f, c). length s)
        (saves (trace (snd (send_bulk_messages ok_env default_config
           twenty_five_users ''hi'' False
           (init_state\<lparr>trace := []\<rparr>)))))
      = [10, 20, 25]"
    using t by blast
  have f: "\<forall>k\<le>25.
               sent_file (state_after ok_env default_config ''hi'' twenty_five_users k
                            (init_state\<lparr>trace := []\<rparr>)) =
                 (if k < 10 then sent_file init_state
                  else if k < 20 then Stored (take 10 twenty_five_users)
                  else Stored (take 20 twenty_five_users))
               \<and> failed_file (state_after ok_env default_config ''hi'' twenty_five_users k
                            (init_state\<lparr>trace := []\<rparr>)) =
                 (if k < 10 then failed_file init_state else Stored [])"
    using t h7 by blast
  have f10: "sent_file (state_after ok_env default_config ''hi'' twenty_five_users 10
                          (init_state\<lparr>trace := []\<rparr>))
      = Stored (take 10 twenty_five_users)"
    using f [rule_format, of 10] by simp
  have f20: "sent_file (state_after ok_env default_config ''hi'' twenty_five_users 20
                          (init_state\<lparr>trace := []\<rparr>))
      = Stored (take 20 twenty_five_users)"
    using f [rule_format, of 20] by simp
  have e: "sent_file (snd (send_bulk_messages ok_env default_config twenty_five_users ''hi'' False
                        (init_state\<lparr>trace := []\<rparr>)))
      = Stored twenty_five_users
   \<and> failed_file (snd (send_bulk_messages ok_env default_config twenty_five_users ''hi'' False
                        (init_state\<lparr>trace := []\<rparr>)))
      = Stored []"
    using t h7 by blast
  from h1 h2 h3 h4 h5 h6 h7 a f10 f20 e show ?thesis by blast
qed

section \<open>The run counters\<close>

lemma count_status_simps [simp]:
  "count_status x [] = 0"
  "count_status x (rs @ [r]) = count_status x rs + (if status r = x then 1 else 0)"
  by (simp_all add: count_status_def)

lemma handle_send_error_counts:
  assumes "handle_send_error en cfg u attempt res e st = (out, st')"
      and "status res = Failed"
      and "\<forall>w. e \<noteq> FloodWaitError w"
  shows "attempt_counts cfg attempt st out st'"
  using assms
  by (cases e)
     (auto simp: sleep_def Let_def attempt_counts_def split: prod.splits option.splits if_splits)

lemma attempt_once_counts:
  assumes a: "attempt_once en cfg u m attempt res st = (out, st')"
      and f: "status res = Failed"
      and r: "\<forall>t v. get_entity_at en t v = Inr UserEntity"
      and nf: "\<forall>t v w. send_message_at en t v \<noteq> Some (FloodWaitError w)"
  shows "attempt_counts cfg attempt st out st'"
proof (cases "send_message_at en (Suc (tick st)) u")
  case None
  then show ?thesis
    using a r by (auto simp: attempt_once_def validate_user_def send_message_def attempt_counts_def)
next
  case (Some e)
  let ?st2 = "external (SendMessage u m) (external (GetEntity u) st)"
  have h: "handle_send_error en cfg u attempt res e ?st2 = (out, st')"
    using a r Some by (simp add: attempt_once_def validate_user_def send_message_def)
  have "\<forall>w. e \<noteq> FloodWaitError w" using nf Some by metis
  from handle_send_error_counts [OF h f this] show ?thesis
    by (simp add: attempt_counts_def split: attempt_end.splits)
qed

lemma retry_loop_counts:
  assumes r: "\<forall>t v. get_entity_at en t v = Inr UserEntity"
      and nf: "\<forall>t v w. send_message_at en t v \<noteq> Some (FloodWaitError w)"
  shows "retry_loop en cfg u m attempt res st = (Inr x, st') \<Longrightarrow> status res = Failed \<Longrightarrow>
         attempt < max_retries cfg \<Longrightarrow>
           stats_failed st' = stats_failed st + (if status x = Failed then 1 else 0)
           \<and> stats_skipped st' = stats_skipped st + (if status x = Skipped then 1 else 0)"
proof (induction "nat (max_retries cfg - attempt)" arbitrary: attempt res st)
  case 0
  then show ?case by simp
next
  case (Suc k)
  note lt = Suc.prems(3)
  obtain a st1 where a: "attempt_once en cfg u m attempt res st = (a, st1)"
    by (cases "attempt_once en cfg u m attempt res st")
  note e = attempt_once_effects [OF a Suc.prems(2)]
  note c = attempt_once_counts [OF a Suc.prems(2) r nf]
  show ?case
  proof (cases a)
    case (Return y)
    then have "x = y" "st' = st1"
      using Suc.prems(1) lt a by (subst (asm) retry_loop.simps; simp)+
    then show ?thesis using c Return by (simp add: attempt_counts_def)
  next
    case (Raise y)
    then have False
      using Suc.prems(1) lt a by (subst (asm) retry_loop.simps) simp
    then show ?thesis ..
  next
    case (NextAttempt y)
    then have rl: "retry_loop en cfg u m (attempt + 1) y st1 = (Inr x, st')"
      using Suc.prems(1) lt a by (subst (asm) retry_loop.simps) simp
    have y: "status y = Failed" "same_stats st st1"
      using e NextAttempt by (simp_all add: attempt_ok_def)
    have lt': "attempt + 1 < max_retries cfg"
      using c NextAttempt lt by (simp add: attempt_counts_def)
    have k: "k = nat (max_retries cfg - (attempt + 1))" using Suc.hyps(2) by simp
    from Suc.hyps(1) [OF k rl y(1) lt'] y(2) show ?thesis
      by (simp add: same_stats_def)
  qed
qed

lemma process_user_counts:
  assumes p: "process_user en cfg m n i u sent failed st = (le, sent', failed', st')"
      and mr: "0 < max_retries cfg"
      and r: "\<forall>t v. get_entity_at en t v = Inr UserEntity"
      and nf: "\<forall>t v w. send_message_at en t v \<noteq> Some (FloodWaitError w)"
  shows "stats_failed st' - count_status Failed failed' = stats_failed st - count_status Failed failed
       \<and> stats_skipped st' - count_status Skipped failed'
           = stats_skipped st - count_status Skipped failed"
proof -
  let ?st0 = "log (Processing i n u) st"
  obtain out st1 where s: "send_message_with_retry en cfg u m ?st0 = (out, st1)"
    by (cases "send_message_with_retry en cfg u m ?st0")
  note e = send_message_with_retry_effects(2) [OF s]
  show ?thesis
  proof (cases out)
    case (Inl x)
    then show ?thesis
      using p s e
      by (auto simp: process_user_def handle_user_error_def same_stats_def split: if_splits)
  next
    case (Inr x)
    have "retry_loop en cfg u m 0
            \<lparr>user = u, status = Failed, error = None, timestamp = now_at en (tick ?st0)\<rparr> ?st0
          = (Inr x, st1)"
      using s Inr by (simp add: send_message_with_retry_def)
    from retry_loop_counts [OF r nf this _ mr]
    have c: "stats_failed st1 = stats_failed st + (if status x = Failed then 1 else 0)"
      "stats_skipped st1 = stats_skipped st + (if status x = Skipped then 1 else 0)"
      by simp_all
    show ?thesis
      using p s Inr c
      by (auto simp: process_user_def handle_user_error_def record_result_def
            print_stats_def sleep_def
            split: if_splits prod.splits option.splits)
  qed
qed

text \<open>
  C5, as stated, fails on a resumed run: the counters start at zero in \<open>__init__\<close> while
  the lists start from what \<open>load_progress\<close> returned.  With \<open>alice\<close> sent and \<open>bob\<close>
  skipped in an earlier run, resuming for \<open>carol\<close> ends with a sent list of two entries
  and one skipped record, saved when \<open>stats['sent']\<close> is 1 and \<open>stats['skipped']\<close> is 0.
\<close>

theorem resumed_run_counts_only_itself:
  "saves (trace (snd (send_bulk_messages ok_env default_config [''alice'', ''bob'', ''carol'']
                        ''hi'' True prior_progress)))
     = [([''alice'', ''carol''],
         [\<lparr>user = ''bob'', status = Skipped, error = Some ''Privacy settings prevent messaging'',
            timestamp = ''2023-12-31T23:00:00''\<rparr>],
         1, 0, 0)]"
  by (simp add: run_defs prior_progress_def)

text \<open>
  C5, amended.  At every call of \<open>save_progress\<close> of a run (each checkpoint, the save on
  interruption and the final save, after which the counters no longer change),
  \<open>stats['sent']\<close> is its value at the start of the run plus the number of identifiers
  the run has added to the sent list.  When moreover every identifier resolves to a
  user, no send raises a rate-limit error and \<open>max_retries \<ge> 1\<close>, \<open>stats['failed']\<close> and
  \<open>stats['skipped']\<close> are their values at the start plus the numbers of records with
  status \<open>Failed\<close> and \<open>Skipped\<close> that the run has added.  With \<open>resume = false\<close> and
  counters starting at zero these are the totals the claim names.
\<close>

theorem counters_count_this_run:
  "(\<forall>(s, f, a, b, c) \<in> set (saves (trace (snd (send_bulk_messages en cfg users m resume
                                                   (st\<lparr>trace := []\<rparr>))))).
      a = stats_sent st + (int (length s) - int (length (fst (loaded resume st)))))
   \<and> (0 < max_retries cfg
        \<and> (\<forall>t v. get_entity_at en t v = Inr UserEntity)
        \<and> (\<forall>t v w. send_message_at en t v \<noteq> Some (FloodWaitError w))
      \<longrightarrow> (\<forall>(s, f, a, b, c) \<in> set (saves (trace (snd (send_bulk_messages en cfg users m resume
                                                          (st\<lparr>trace := []\<rparr>))))).
             b = stats_failed st
                   + (count_status Failed f - count_status Failed (snd (loaded resume st)))
             \<and> c = stats_skipped st
                   + (count_status Skipped f - count_status Skipped (snd (loaded resume st)))))"
proof (intro conjI impI)
  define k where "k = stats_sent st - int (length (fst (loaded resume st)))"
  define I where "I = (\<lambda>(us :: string list) (sent :: string list) (failed :: result list)
                         (c :: int \<times> int \<times> int). fst c - int (length sent) = k)"
  define P where "P = (\<lambda>(s :: string list, f :: result list, c :: int \<times> int \<times> int).
                         fst c - int (length s) = k)"
  have step: "I us sent' failed' (counters st')"
    if "I (u # us) sent failed (counters st0)"
      and "process_user en cfg m n i u sent failed st0 = (le, sent', failed', st')"
    for i u us sent failed st0 le sent' failed' st' n
    using that(1) process_user_effects(4) [OF that(2)]
    by (simp add: I_def counters_def)
  have save: "P (sent, failed, c)" if "I us sent failed c" for us sent failed c
    using that by (simp add: I_def P_def)
  have init: "I (working_list resume users (st\<lparr>trace := []\<rparr>))
                (fst (loaded resume (st\<lparr>trace := []\<rparr>))) (snd (loaded resume (st\<lparr>trace := []\<rparr>)))
                (counters (st\<lparr>trace := []\<rparr>))"
    by (simp add: I_def k_def counters_def)
  have "\<forall>x\<in>set (saves (trace (snd (send_bulk_messages en cfg users m resume (st\<lparr>trace := []\<rparr>))))). P x"
  proof (rule send_bulk_messages_invariant [where I = I and P = P])
    show "trace (st\<lparr>trace := []\<rparr>) = []" by simp
  qed (use step save init in blast)+
  then show "\<forall>(s, f, a, b, c) \<in> set (saves (trace (snd (send_bulk_messages en cfg users m resume
                                                   (st\<lparr>trace := []\<rparr>))))).
      a = stats_sent st + (int (length s) - int (length (fst (loaded resume st))))"
    by (auto simp: P_def k_def)
next
  assume h: "0 < max_retries cfg
        \<and> (\<forall>t v. get_entity_at en t v = Inr UserEntity)
        \<and> (\<forall>t v w. send_message_at en t v \<noteq> Some (FloodWaitError w))"
  define kf where "kf = stats_failed st - count_status Failed (snd (loaded resume st))"
  define ks where "ks = stats_skipped st - count_status Skipped (snd (loaded resume st))"
  define I where "I = (\<lambda>(us :: string list) (sent :: string list) (failed :: result list)
                         (c :: int \<times> int \<times> int).
                         fst (snd c) - count_status Failed failed = kf
                         \<and> snd (snd c) - count_status Skipped failed = ks)"
  define P where "P = (\<lambda>(s :: string list, f :: result list, c :: int \<times> int \<times> int).
                         fst (snd c) - count_status Failed f = kf
                         \<and> snd (snd c) - count_status Skipped f = ks)"
  have step: "I us sent' failed' (counters st')"
    if "I (u # us) sent failed (counters st0)"
      and "process_user en cfg m n i u sent failed st0 = (le, sent', failed', st')"
    for i u us sent failed st0 le sent' failed' st' n
    using that(1) process_user_counts [OF that(2)] h
    by (simp add: I_def counters_def)
  have save: "P (sent, failed, c)" if "I us sent failed c" for us sent failed c
    using that by (simp add: I_def P_def)
  have init: "I (working_list resume users (st\<lparr>trace := []\<rparr>))
                (fst (loaded resume (st\<lparr>trace := []\<rparr>))) (snd (loaded resume (st\<lparr>trace := []\<rparr>)))
                (counters (st\<lparr>trace := []\<rparr>))"
    by (simp add: I_def kf_def ks_def counters_def)
  have "\<forall>x\<in>set (saves (trace (snd (send_bulk_messages en cfg users m resume (st\<lparr>trace := []\<rparr>))))). P x"
  proof (rule send_bulk_messages_invariant [where I = I and P = P])
    show "trace (st\<lparr>trace := []\<rparr>) = []" by simp
  qed (use step save init in blast)+
  then show "\<forall>(s, f, a, b, c) \<in> set (saves (trace (snd (send_bulk_messages en cfg users m resume
                                                          (st\<lparr>trace := []\<rparr>))))).
             b = stats_failed st
                   + (count_status Failed f - count_status Failed (snd (loaded resume st)))
             \<and> c = stats_skipped st
                   + (count_status Skipped f - count_status Skipped (snd (loaded resume st)))"
    by (auto simp: P_def kf_def ks_def)
qed

theorem counters_count_this_run_witness:
  "0 < max_retries default_config
   \<and> (\<forall>t v. get_entity_at (refusal_env UserPrivacyRestrictedError) t v = Inr UserEntity)
   \<and> (\<forall>t v w. send_message_at (refusal_env UserPrivacyRestrictedError) t v \<noteq> Some (FloodWaitError w))
   \<and> list_all (\<lambda>(s, f, a, b, c).
         a = stats_sent init_state + (int (length s) - int (length (fst (loaded False init_state)))))
       (saves (trace (snd (send_bulk_messages (refusal_env UserPrivacyRestrictedError) default_config
          [''alice'', ''carol''] ''hi'' False (init_state\<lparr>trace := []\<rparr>)))))
   \<and> list_all (\<lambda>(s, f, a, b, c).
         b = stats_failed init_state
               + (count_status Failed f - count_status Failed (snd (loaded False init_state)))
         \<and> c = stats_skipped init_state
               + (count_status Skipped f - count_status Skipped (snd (loaded False init_state))))
       (saves (trace (snd (send_bulk_messages (refusal_env UserPrivacyRestrictedError) default_config
          [''alice'', ''carol''] ''hi'' False (init_state\<lparr>trace := []\<rparr>)))))
   \<and> map (\<lambda>(s, f, a, b, c). (length s, length f, a, b, c))
       (saves (trace (snd (send_bulk_messages (refusal_env UserPrivacyRestrictedError) default_config
          [''alice'', ''carol''] ''hi'' False (init_state\<lparr>trace := []\<rparr>)))))
     = [(0, 2, 0, 0, 2)]"
proof -
  let ?en = "refusal_env UserPrivacyRestrictedError"
  let ?run = "saves (trace (snd (send_bulk_messages ?en default_config
          [''alice'', ''carol''] ''hi'' False (init_state\<lparr>trace := []\<rparr>))))"
  have h1: "0 < max_retries default_config" by (simp add: default_config_def)
  have h2: "\<forall>t v. get_entity_at ?en t v = Inr UserEntity"
    by (simp add: refusal_env_def ok_env_def)
  have h3: "\<forall>t v w. send_message_at ?en t v \<noteq> Some (FloodWaitError w)"
    by (simp add: refusal_env_def ok_env_def)
  note t = counters_count_this_run [of ?en default_config "[''alice'', ''carol'']" "''hi''" False
             init_state]
  have a: "\<forall>(s, f, a, b, c) \<in> set ?run.
         a = stats_sent init_state + (int (length s) - int (length (fst (loaded False init_state))))"
    using t by blast
  have b: "\<forall>(s, f, a, b, c) \<in> set ?run.
         b = stats_failed init_state
               + (count_status Failed f - count_status Failed (snd (loaded False init_state)))
         \<and> c = stats_skipped init_state
               + (count_status Skipped f - count_status Skipped (snd (loaded False init_state)))"
    using t h1 h2 h3 by blast
  have la: "list_all (\<lambda>(s, f, a, b, c).
         a = stats_sent init_state + (int (length s) - int (length (fst (loaded False init_state)))))
       ?run"
    using a by (simp only: list_all_iff)
  have lb: "list_all (\<lambda>(s, f, a, b, c).
         b = stats_failed init_state
               + (count_status Failed f - count_status Failed (snd (loaded False init_state)))
         \<and> c = stats_skipped init_state
               + (count_status Skipped f - count_status Skipped (snd (loaded False init_state))))
       ?run"
    using b by (simp only: list_all_iff)
  have v: "map (\<lambda>(s, f, a, b, c). (length s, length f, a, b, c)) ?run = [(0, 2, 0, 0, 2)]"
    by (simp add: run_defs refusal_env_def)
  from h1 h2 h3 la lb v show ?thesis by blast
qed

text \<open>
  Two paths of \<open>send_message_with_retry\<close> return a record without touching the counters,
  unlike their sibling paths at lines 167, 174 and 182: the recipient that does not
  resolve (lines 145-148) and the loop that runs out on rate-limit errors (line 186).
  The hypotheses of the second half of the theorem above leave these runs out.
\<close>

lemma unresolved_recipient_not_counted:
  "saves (trace (snd (send_bulk_messages ghost_env default_config [''ghost''] ''hi'' False init_state)))
     = [([], [\<lparr>user = ''ghost'', status = Skipped, error = Some ''User not found or invalid'',
                timestamp = ''2024-01-01T00:00:00''\<rparr>], 0, 0, 0)]"
  by (simp add: run_defs ghost_env_def)

lemma rate_limited_failure_not_counted:
  "saves (trace (snd (send_bulk_messages flood_env default_config [''alice''] ''hi'' False init_state)))
     = [([], [\<lparr>user = ''alice'', status = Failed, error = None,
                timestamp = ''2024-01-01T00:00:00''\<rparr>], 0, 0, 0)]"
  by (simp add: run_defs)

end
